theory Spec2Isabelle
  imports Complex_Main
begin

section \<open>Nested cross-validation for a graph neural network\<close>

text \<open>
  A shallow embedding of the notebook \<^verbatim>\<open>nested_cross_validation_gnn.ipynb\<close>: the
  dataset class \<^verbatim>\<open>MoleculeDataset\<close>, the functions \<^verbatim>\<open>train_one_epoch\<close>,
  \<^verbatim>\<open>train\<close>, \<^verbatim>\<open>validate\<close>, \<^verbatim>\<open>test\<close>, \<^verbatim>\<open>cv_objective\<close> and
  \<^verbatim>\<open>nested_cv_experiment\<close>.

  Python floats are modelled as \<^typ>\<open>real\<close> (exact arithmetic, no rounding, no NaN).
  Exceptions are values of the type \<open>error\<close>; a function that mutates the model, the
  random generators or the log takes the state and returns it with its result.
\<close>

subsection \<open>Exceptions and return values\<close>

datatype error =
  ZeroDivisionError | IndexError | ValueError | KeyError | TypeError | RuntimeError
  | FileNotFoundError

datatype pyval = PyNone | PyFloat real

subsection \<open>MoleculeDataset\<close>

text \<open>
  A cell of a CSV table is a string or a number. A data frame has column labels and rows;
  \<^verbatim>\<open>df[label]\<close> raises KeyError for a label that is no column.
\<close>

datatype cell = Str string | Num real

record dataframe =
  df_columns :: "string list"
  df_rows :: "(string \<Rightarrow> cell) list"

text \<open>
  A graph (torch_geometric \<^verbatim>\<open>Data\<close>): what \<^verbatim>\<open>from_smiles\<close> builds from the SMILES
  string (node features, edge index, edge features; opaque here) and the target \<^verbatim>\<open>y\<close>.
\<close>

record 'f data =
  data_x :: 'f
  data_y :: real

text \<open>
  The attributes of a \<^verbatim>\<open>MoleculeDataset\<close> that its methods read. \<open>raw_paths\<close> stands for
  the property of the base class, the paths of \<^verbatim>\<open>self.filenames\<close> in the raw directory;
  the cache \<^verbatim>\<open>data_count\<close> is left out (\<open>len\<close> recomputes the count).
\<close>

record MoleculeDataset =
  raw_paths :: "string list"
  smiles_label :: string
  target_label :: string

text \<open>
  The raw files are a map from path to table (\<^verbatim>\<open>pd.read_csv\<close> raises
  FileNotFoundError on a path that is not there); the processed directory is a map from
  \<open>idx\<close> to the graph saved as \<^verbatim>\<open>data_{idx}.pt\<close>.
\<close>

definition read_csv :: "(string \<rightharpoonup> dataframe) \<Rightarrow> string \<Rightarrow> error + dataframe" where
  "read_csv fs path = (case fs path of None \<Rightarrow> Inl FileNotFoundError | Some df \<Rightarrow> Inr df)"

text \<open>
  \<^verbatim>\<open>df.reset_index()\<close>: the row numbers become a new first column, named \<open>index\<close>, or
  \<open>level_0\<close> when the table has a column \<open>index\<close> already; pandas refuses to insert a
  column that exists.
\<close>

definition reset_index :: "dataframe \<Rightarrow> error + dataframe" where
  "reset_index df =
     (let name = (if ''index'' \<in> set (df_columns df) then ''level_0'' else ''index'')
      in if name \<in> set (df_columns df) then Inl ValueError
         else Inr \<lparr>df_columns = name # df_columns df,
                    df_rows = map (\<lambda>(i, r). r(name := Num (real i))) (enumerate 0 (df_rows df))\<rparr>)"

text \<open>\<^verbatim>\<open>_calculate_num_data_objects\<close>: the rows of every raw file, each file read itself.\<close>

fun calculate_num_data_objects ::
  "(string \<rightharpoonup> dataframe) \<Rightarrow> string list \<Rightarrow> nat \<Rightarrow> error + nat" where
  "calculate_num_data_objects fs [] count = Inr count"
| "calculate_num_data_objects fs (raw_path # rest) count =
     (case read_csv fs raw_path of
        Inl e \<Rightarrow> Inl e
      | Inr df \<Rightarrow> calculate_num_data_objects fs rest (count + length (df_rows df)))"

text \<open>
  The inner loop of \<^verbatim>\<open>process\<close>, over \<^verbatim>\<open>enumerate(df[self.smiles_label])\<close>: the
  graph of the SMILES string with the target of row \<open>i\<close>, saved under the running \<open>idx\<close>.
\<close>

fun process_rows ::
  "(string \<Rightarrow> 'f) \<Rightarrow> MoleculeDataset \<Rightarrow> dataframe \<Rightarrow> (nat \<times> cell) list \<Rightarrow>
   nat \<times> (nat \<rightharpoonup> 'f data) \<Rightarrow> (error + unit) \<times> (nat \<times> (nat \<rightharpoonup> 'f data))" where
  "process_rows from_smiles ds df [] st = (Inr (), st)"
| "process_rows from_smiles ds df ((i, smile) # rest) (idx, dir) =
     (case smile of
        Num _ \<Rightarrow> (Inl TypeError, (idx, dir))
      | Str s \<Rightarrow>
          (if target_label ds \<in> set (df_columns df) then
             (case (df_rows df ! i) (target_label ds) of
                Str _ \<Rightarrow> (Inl TypeError, (idx, dir))
              | Num v \<Rightarrow>
                  process_rows from_smiles ds df rest
                    (idx + 1, dir(idx \<mapsto> \<lparr>data_x = from_smiles s, data_y = v\<rparr>)))
           else (Inl KeyError, (idx, dir))))"

text \<open>
  The outer loop of \<^verbatim>\<open>process\<close>, over \<^verbatim>\<open>self.raw_paths\<close>. The body reads
  \<^verbatim>\<open>self.raw_paths[0]\<close>, whatever \<^verbatim>\<open>raw_path\<close> is.
\<close>

fun process_paths ::
  "(string \<Rightarrow> 'f) \<Rightarrow> (string \<rightharpoonup> dataframe) \<Rightarrow> MoleculeDataset \<Rightarrow> string list \<Rightarrow>
   nat \<times> (nat \<rightharpoonup> 'f data) \<Rightarrow> (error + unit) \<times> (nat \<times> (nat \<rightharpoonup> 'f data))" where
  "process_paths from_smiles fs ds [] st = (Inr (), st)"
| "process_paths from_smiles fs ds (raw_path # rest) st =
     (case raw_paths ds of
        [] \<Rightarrow> (Inl IndexError, st)
      | first # _ \<Rightarrow>
          (case read_csv fs first of
             Inl e \<Rightarrow> (Inl e, st)
           | Inr raw \<Rightarrow>
               (case reset_index raw of
                  Inl e \<Rightarrow> (Inl e, st)
                | Inr df \<Rightarrow>
                    (if smiles_label ds \<in> set (df_columns df) then
                       (case process_rows from_smiles ds df
                               (enumerate 0 (map (\<lambda>r. r (smiles_label ds)) (df_rows df))) st of
                          (Inl e, st') \<Rightarrow> (Inl e, st')
                        | (Inr _, st') \<Rightarrow> process_paths from_smiles fs ds rest st')
                     else (Inl KeyError, st)))))"

definition process ::
  "(string \<Rightarrow> 'f) \<Rightarrow> (string \<rightharpoonup> dataframe) \<Rightarrow> MoleculeDataset \<Rightarrow> (nat \<rightharpoonup> 'f data) \<Rightarrow>
   (error + unit) \<times> (nat \<times> (nat \<rightharpoonup> 'f data))" where
  "process from_smiles fs ds dir = process_paths from_smiles fs ds (raw_paths ds) (0, dir)"

text \<open>\<^verbatim>\<open>len\<close> counts the names \<^verbatim>\<open>data_0.pt\<close> .. of \<^verbatim>\<open>processed_file_names\<close>.\<close>

definition len :: "(string \<rightharpoonup> dataframe) \<Rightarrow> MoleculeDataset \<Rightarrow> error + nat" where
  "len fs ds = calculate_num_data_objects fs (raw_paths ds) 0"

definition get :: "(nat \<rightharpoonup> 'f data) \<Rightarrow> nat \<Rightarrow> error + 'f data" where
  "get dir idx = (case dir idx of None \<Rightarrow> Inl FileNotFoundError | Some g \<Rightarrow> Inr g)"

subsection \<open>K-fold splitting\<close>

text \<open>
  Modelled from the spec: \<^verbatim>\<open>sklearn.model_selection.KFold\<close> is a library class, absent
  from the repository. The spec has a fold split partition the indices \<open>0..N-1\<close> into
  \<open>K\<close> validation sets with the remainder distributed across the folds, the rest of the
  indices being the paired training set. The model follows the library's algorithm: the
  first \<open>N mod K\<close> folds get one index more, the folds are consecutive slices of the
  shuffled index array, and both index lists of a split are in ascending order. The
  shuffle of the fixed seed is a parameter \<open>perm\<close>: position \<open>i\<close> of the shuffled array
  holds \<open>perm i\<close>. The constructor refuses fewer than two splits, \<^verbatim>\<open>split\<close> refuses more
  splits than samples.
\<close>

definition fold_sizes :: "nat \<Rightarrow> nat \<Rightarrow> nat list" where
  "fold_sizes n_samples n_splits =
     map (\<lambda>i. n_samples div n_splits + (if i < n_samples mod n_splits then 1 else 0))
       [0..<n_splits]"

fun slices :: "nat list \<Rightarrow> 'a list \<Rightarrow> 'a list list" where
  "slices [] xs = []"
| "slices (fold_size # rest) xs = take fold_size xs # slices rest (drop fold_size xs)"

definition kfold_split ::
  "(nat \<Rightarrow> nat) \<Rightarrow> nat \<Rightarrow> nat \<Rightarrow> error + (nat list \<times> nat list) list" where
  "kfold_split perm n_splits n_samples =
     (if n_splits \<le> 1 then Inl ValueError
      else if n_samples < n_splits then Inl ValueError
      else Inr (map (\<lambda>test_fold.
                       (filter (\<lambda>i. i \<notin> set test_fold) [0..<n_samples],
                        filter (\<lambda>i. i \<in> set test_fold) [0..<n_samples]))
                  (slices (fold_sizes n_samples n_splits) (map perm [0..<n_samples]))))"

subsection \<open>Subsets and data loaders\<close>

text \<open>\<^verbatim>\<open>torch.utils.data.Subset(dataset, indices)\<close>: item \<open>i\<close> is \<^verbatim>\<open>dataset[indices[i]]\<close>.\<close>

record 'a Subset =
  sub_dataset :: "'a list"
  sub_indices :: "nat list"

definition subset_getitem :: "'a Subset \<Rightarrow> nat \<Rightarrow> error + 'a" where
  "subset_getitem s i =
     (if i < length (sub_indices s) then
        (if sub_indices s ! i < length (sub_dataset s)
         then Inr (sub_dataset s ! (sub_indices s ! i))
         else Inl IndexError)
      else Inl IndexError)"

record 'a DataLoader =
  dl_dataset :: "'a Subset"
  dl_batch_size :: nat
  dl_shuffle :: bool

text \<open>
  The constructor \<^verbatim>\<open>DataLoader(dataset, batch_size, shuffle)\<close>. A shuffling loader gets a
  random sampler, which refuses a dataset without samples; the batch sampler refuses a
  batch size that is not positive. Both are a ValueError, raised where the loader is built.
\<close>

definition DataLoader_init :: "'a Subset \<Rightarrow> nat \<Rightarrow> bool \<Rightarrow> error + 'a DataLoader" where
  "DataLoader_init dataset batch_size shuffle =
     (if shuffle \<and> sub_indices dataset = [] then Inl ValueError
      else if batch_size = 0 then Inl ValueError
      else Inr \<lparr>dl_dataset = dataset, dl_batch_size = batch_size, dl_shuffle = shuffle\<rparr>)"

text \<open>The sampler's indices in batches of \<open>n\<close>, the last one possibly smaller.\<close>

function chunks :: "nat \<Rightarrow> 'a list \<Rightarrow> 'a list list" where
  "chunks n [] = []"
| "chunks n (x # xs) =
     (if n = 0 then [] else take n (x # xs) # chunks n (drop n (x # xs)))"
  by pat_completeness auto
termination
  by (relation "measure (\<lambda>(n, xs). length xs)") auto

text \<open>Collating one batch of the sampler's indices; a bad index raises IndexError.\<close>

fun fetch :: "'a Subset \<Rightarrow> nat list \<Rightarrow> error + 'a list" where
  "fetch s [] = Inr []"
| "fetch s (i # rest) =
     (case subset_getitem s i of
        Inl e \<Rightarrow> Inl e
      | Inr x \<Rightarrow> (case fetch s rest of Inl e \<Rightarrow> Inl e | Inr xs \<Rightarrow> Inr (x # xs)))"

subsection \<open>The model, the optimizer and the log\<close>

text \<open>The records of the logger, one constructor per \<^verbatim>\<open>logger.info\<close> call of the notebook.\<close>

datatype event =
    FoldOutOf nat nat
  | TrainValidateLength nat nat nat
  | OptimizingHparams
  | PerformingInnerCV
  | EpochTrainLoss nat real
  | BestHparams
  | TestOnUnseenData
  | TestEvaluationMSE real
  | MeanMSEAcrossOuterCV real

text \<open>
  The mutable state the functions share: the learnable parameters of the one model
  instance, its \<^verbatim>\<open>training\<close> flag (\<^verbatim>\<open>model.train()\<close>, \<^verbatim>\<open>model.eval()\<close>), the rest of
  the runtime (random generators, autograd tape, wall clock; opaque) and the log.
\<close>

record ('p, 'w) state =
  params :: 'p
  training :: bool
  world :: 'w
  logged :: "event list"

definition logger_info :: "event \<Rightarrow> ('p, 'w) state \<Rightarrow> ('p, 'w) state" where
  "logger_info e st = st\<lparr>logged := logged st @ [e]\<rparr>"

record 'o optimizer =
  opt_lr :: real
  opt_weight_decay :: real
  opt_state :: 'o

type_synonym loss_fn = "real list \<Rightarrow> real list \<Rightarrow> real"

text \<open>
  A hyperparameter configuration proposed for one trial. Modelled from the spec: the
  search driver (optuna) is a library, absent from the repository; the spec has a
  configuration map a parameter name to a sampled value, proposed by the search per trial
  and immutable once proposed. \<^verbatim>\<open>trial.suggest_float(name, low, high)\<close> reads it.
\<close>

type_synonym trial = "string \<Rightarrow> real"

definition suggest_float :: "trial \<Rightarrow> string \<Rightarrow> real \<Rightarrow> real \<Rightarrow> real" where
  "suggest_float t name low high = t name"

text \<open>
  The collaborators whose code is outside the repository, as parameters:
  \<^item> \<open>reset_parameters\<close>: \<^verbatim>\<open>model.reset_parameters()\<close>, a fresh random initialisation;
  \<^item> \<open>forward\<close>: \<^verbatim>\<open>model(data.x, data.edge_index, data.edge_attr, data.batch)\<close>, the
    predictions for the graphs of the batch; the parameters and the training flag are its
    inputs, the predictions and the runtime after the pass (dropout draws, autograd tape)
    its outputs;
  \<^item> \<open>adam_init\<close>: the state of a new \<^verbatim>\<open>torch.optim.Adam\<close> (its check of the sign of
    \<open>lr\<close> and \<open>weight_decay\<close> is left out);
  \<^item> \<open>backward_step\<close>: \<^verbatim>\<open>optimizer.zero_grad()\<close> before the forward pass and
    \<^verbatim>\<open>loss.backward(); optimizer.step()\<close> after it: new parameters and optimizer;
  \<^item> \<open>randperm\<close>: the order a shuffling \<^verbatim>\<open>DataLoader\<close> draws for one pass over \<open>n\<close> items
    (position \<open>i\<close> holds item \<open>randperm i\<close>);
  \<^item> \<open>kfold_shuffle\<close>: the shuffled index array of \<^verbatim>\<open>KFold(shuffle=True, random_state=seed)\<close>
    on \<open>n\<close> samples;
  \<^item> \<open>propose\<close>: the configuration the search driver proposes after the trials so far;
  \<^item> \<open>timed_out\<close>: whether the driver's wall-clock timeout has passed before the next
    trial starts.
\<close>

record ('p, 'o, 'w, 'f) torch =
  reset_parameters :: "'w \<Rightarrow> 'p \<times> 'w"
  forward :: "'p \<Rightarrow> bool \<Rightarrow> 'f data list \<Rightarrow> 'w \<Rightarrow> real list \<times> 'w"
  adam_init :: 'o
  backward_step :: "loss_fn \<Rightarrow> 'o optimizer \<Rightarrow> 'p \<Rightarrow> 'f data list \<Rightarrow> 'w \<Rightarrow> 'p \<times> 'o optimizer \<times> 'w"
  randperm :: "nat \<Rightarrow> 'w \<Rightarrow> (nat \<Rightarrow> nat) \<times> 'w"
  kfold_shuffle :: "nat \<Rightarrow> nat \<Rightarrow> nat \<Rightarrow> nat"
  propose :: "(trial \<times> real) list \<Rightarrow> 'w \<Rightarrow> trial \<times> 'w"
  timed_out :: "real \<Rightarrow> nat \<Rightarrow> 'w \<Rightarrow> bool"

text \<open>
  The batches of indices one pass over a loader yields. The loaders of the notebook are
  built by \<open>DataLoader_init\<close>: they have a positive batch size, and a shuffling one has a
  sample.
\<close>

definition batch_sampler ::
  "('p, 'o, 'w, 'f) torch \<Rightarrow> 'a DataLoader \<Rightarrow> 'w \<Rightarrow> nat list list \<times> 'w" where
  "batch_sampler T loader w =
     (let n = length (sub_indices (dl_dataset loader)) in
      if dl_shuffle loader then
        (let (perm, w') = randperm T n w
         in (chunks (dl_batch_size loader) (map perm [0..<n]), w'))
      else (chunks (dl_batch_size loader) [0..<n], w))"

text \<open>
  \<^verbatim>\<open>torch.nn.MSELoss()\<close> (mean reduction; the notebook's \<^verbatim>\<open>loss_fn\<close>) and sklearn's
  \<^verbatim>\<open>mean_squared_error(y_true, y_pred)\<close>, which refuses arrays of different lengths and
  empty ones.
\<close>

definition MSELoss :: loss_fn where
  "MSELoss pred y = sum_list (map2 (\<lambda>p t. (p - t)\<^sup>2) pred y) / real (length pred)"

definition mean_squared_error :: "real list \<Rightarrow> real list \<Rightarrow> error + real" where
  "mean_squared_error y_true y_pred =
     (if length y_true = length y_pred \<and> y_true \<noteq> []
      then Inr (sum_list (map2 (\<lambda>t p. (t - p)\<^sup>2) y_true y_pred) / real (length y_true))
      else Inl ValueError)"

text \<open>
  \<^verbatim>\<open>np.mean\<close> of a list. For the empty list numpy gives nan (here \<open>0 / 0\<close>); both calls
  of the notebook pass one entry per fold of a K-fold split, which has two folds or more.
\<close>

definition np_mean :: "real list \<Rightarrow> real" where
  "np_mean xs = sum_list xs / real (length xs)"

subsection \<open>Train, validate and test\<close>

text \<open>
  The body of the loop of \<^verbatim>\<open>train_one_epoch\<close> on one batch: the loss of the batch, its
  number of graphs and the optimizer after the step.
\<close>

definition train_step ::
  "('p, 'o, 'w, 'f) torch \<Rightarrow> 'f data DataLoader \<Rightarrow> 'o optimizer \<Rightarrow> loss_fn \<Rightarrow> nat list \<Rightarrow>
   ('p, 'w) state \<Rightarrow> (error + real \<times> nat \<times> 'o optimizer) \<times> ('p, 'w) state" where
  "train_step T train_loader opt loss_fn b st =
     (case fetch (dl_dataset train_loader) b of
        Inl e \<Rightarrow> (Inl e, st)
      | Inr data \<Rightarrow>
          (let (pred, w1) = forward T (params st) (training st) data (world st);
               loss = loss_fn pred (map data_y data);
               (p', opt', w2) = backward_step T loss_fn opt (params st) data w1
           in (Inr (loss, length data, opt'), st\<lparr>params := p', world := w2\<rparr>)))"

fun train_batches ::
  "('p, 'o, 'w, 'f) torch \<Rightarrow> 'f data DataLoader \<Rightarrow> 'o optimizer \<Rightarrow> loss_fn \<Rightarrow> nat list list \<Rightarrow>
   real \<times> nat \<Rightarrow> ('p, 'w) state \<Rightarrow>
   (error + (real \<times> nat) \<times> 'o optimizer) \<times> ('p, 'w) state" where
  "train_batches T train_loader opt loss_fn [] acc st = (Inr (acc, opt), st)"
| "train_batches T train_loader opt loss_fn (b # rest) (running_loss, num_data) st =
     (case train_step T train_loader opt loss_fn b st of
        (Inl e, st') \<Rightarrow> (Inl e, st')
      | (Inr (loss, num_graphs, opt'), st') \<Rightarrow>
          train_batches T train_loader opt' loss_fn rest
            (running_loss + loss * real num_graphs, num_data + num_graphs) st')"

definition train_one_epoch ::
  "('p, 'o, 'w, 'f) torch \<Rightarrow> 'f data DataLoader \<Rightarrow> 'o optimizer \<Rightarrow> loss_fn \<Rightarrow>
   ('p, 'w) state \<Rightarrow> (error + real \<times> 'o optimizer) \<times> ('p, 'w) state" where
  "train_one_epoch T train_loader opt loss_fn st =
     (let (batches, w) = batch_sampler T train_loader (world st)
      in case train_batches T train_loader opt loss_fn batches (0, 0) (st\<lparr>world := w\<rparr>) of
           (Inl e, st') \<Rightarrow> (Inl e, st')
         | (Inr ((running_loss, num_data), opt'), st') \<Rightarrow>
             (if num_data = 0 then (Inl ZeroDivisionError, st')
              else (Inr (running_loss / real num_data, opt'), st')))"

fun train_epochs ::
  "('p, 'o, 'w, 'f) torch \<Rightarrow> 'f data DataLoader \<Rightarrow> 'o optimizer \<Rightarrow> loss_fn \<Rightarrow> nat list \<Rightarrow>
   ('p, 'w) state \<Rightarrow> (error + 'o optimizer) \<times> ('p, 'w) state" where
  "train_epochs T train_loader opt loss_fn [] st = (Inr opt, st)"
| "train_epochs T train_loader opt loss_fn (ep # rest) st =
     (case train_one_epoch T train_loader opt loss_fn st of
        (Inl e, st') \<Rightarrow> (Inl e, st')
      | (Inr (loss, opt'), st') \<Rightarrow>
          train_epochs T train_loader opt' loss_fn rest (logger_info (EpochTrainLoss ep loss) st'))"

definition train ::
  "nat \<Rightarrow> ('p, 'o, 'w, 'f) torch \<Rightarrow> 'f data DataLoader \<Rightarrow> 'o optimizer \<Rightarrow> loss_fn \<Rightarrow>
   ('p, 'w) state \<Rightarrow> (error + 'o optimizer) \<times> ('p, 'w) state" where
  "train num_epochs T train_loader opt loss_fn st =
     train_epochs T train_loader opt loss_fn [0..<num_epochs] (st\<lparr>training := True\<rparr>)"

fun validate_batches ::
  "('p, 'o, 'w, 'f) torch \<Rightarrow> 'f data DataLoader \<Rightarrow> loss_fn \<Rightarrow> nat list list \<Rightarrow>
   real \<times> nat \<Rightarrow> ('p, 'w) state \<Rightarrow> (error + real \<times> nat) \<times> ('p, 'w) state" where
  "validate_batches T loader loss_fn [] acc st = (Inr acc, st)"
| "validate_batches T loader loss_fn (b # rest) (valid_loss, num_data) st =
     (case fetch (dl_dataset loader) b of
        Inl e \<Rightarrow> (Inl e, st)
      | Inr data \<Rightarrow>
          (let (pred, w) = forward T (params st) (training st) data (world st);
               loss = loss_fn pred (map data_y data)
           in validate_batches T loader loss_fn rest
                (valid_loss + loss * real (length data), num_data + length data)
                (st\<lparr>world := w\<rparr>)))"

definition validate ::
  "('p, 'o, 'w, 'f) torch \<Rightarrow> 'f data DataLoader \<Rightarrow> loss_fn \<Rightarrow> ('p, 'w) state \<Rightarrow>
   (error + real) \<times> ('p, 'w) state" where
  "validate T loader loss_fn st =
     (let st0 = st\<lparr>training := False\<rparr>;
          (batches, w) = batch_sampler T loader (world st0)
      in case validate_batches T loader loss_fn batches (0, 0) (st0\<lparr>world := w\<rparr>) of
           (Inl e, st') \<Rightarrow> (Inl e, st')
         | (Inr (valid_loss, num_data), st') \<Rightarrow>
             (if num_data = 0 then (Inl ZeroDivisionError, st')
              else (Inr (valid_loss / real num_data), st')))"

text \<open>
  \<^verbatim>\<open>test\<close>: every batch appends the rows \<open>[pred, y]\<close> of its graphs
  (\<^verbatim>\<open>torch.cat((pred, data.y), dim=1)\<close>, a RuntimeError when the two differ in length) to
  \<open>output\<close>; \<open>stacked_output\<close> holds all rows (\<^verbatim>\<open>torch.cat\<close> refuses an empty list). The
  metric is \<^verbatim>\<open>mean_squared_error(stacked_output[1], stacked_output[0])\<close>: rows 1 and 0.
\<close>

fun test_batches ::
  "('p, 'o, 'w, 'f) torch \<Rightarrow> 'f data DataLoader \<Rightarrow> loss_fn \<Rightarrow> nat list list \<Rightarrow>
   real list list list \<Rightarrow> ('p, 'w) state \<Rightarrow> (error + real list list list) \<times> ('p, 'w) state" where
  "test_batches T loader loss_fn [] output st = (Inr output, st)"
| "test_batches T loader loss_fn (b # rest) output st =
     (case fetch (dl_dataset loader) b of
        Inl e \<Rightarrow> (Inl e, st)
      | Inr data \<Rightarrow>
          (let (pred, w) = forward T (params st) (training st) data (world st);
               loss = loss_fn pred (map data_y data)
           in if length pred = length data then
                test_batches T loader loss_fn rest
                  (output @ [map2 (\<lambda>p y. [p, y]) pred (map data_y data)]) (st\<lparr>world := w\<rparr>)
              else (Inl RuntimeError, st\<lparr>world := w\<rparr>)))"

definition test ::
  "('p, 'o, 'w, 'f) torch \<Rightarrow> 'f data DataLoader \<Rightarrow> loss_fn \<Rightarrow> ('p, 'w) state \<Rightarrow>
   (error + real) \<times> ('p, 'w) state" where
  "test T loader loss_fn st =
     (let st0 = st\<lparr>training := False\<rparr>;
          (batches, w) = batch_sampler T loader (world st0)
      in case test_batches T loader loss_fn batches [] (st0\<lparr>world := w\<rparr>) of
           (Inl e, st') \<Rightarrow> (Inl e, st')
         | (Inr output, st') \<Rightarrow>
             (if output = [] then (Inl RuntimeError, st')
              else (let stacked_output = concat output
                    in if length stacked_output \<le> 1 then (Inl IndexError, st')
                       else (case mean_squared_error (stacked_output ! 1) (stacked_output ! 0) of
                               Inl e \<Rightarrow> (Inl e, st')
                             | Inr mse \<Rightarrow> (Inr mse, logger_info (TestEvaluationMSE mse) st')))))"

subsection \<open>Inner cross-validation: the search objective\<close>

text \<open>
  The loop of \<^verbatim>\<open>cv_objective\<close> over the inner folds. \<open>dataset\<close> is the notebook's global
  variable \<^verbatim>\<open>dataset\<close>, which the body indexes; the function's own argument
  \<^verbatim>\<open>train_val_data\<close> is used for its length only (in \<open>cv_objective\<close> below). The one
  optimizer of the trial serves every fold.
\<close>

fun cv_folds ::
  "('p, 'o, 'w, 'f) torch \<Rightarrow> 'f data list \<Rightarrow> 'o optimizer \<Rightarrow> loss_fn \<Rightarrow> nat \<Rightarrow>
   (nat list \<times> nat list) list \<Rightarrow> real list \<Rightarrow> ('p, 'w) state \<Rightarrow>
   (error + real list) \<times> ('p, 'w) state" where
  "cv_folds T dataset optimizer loss_fn num_epochs [] inner_cv_loss st = (Inr inner_cv_loss, st)"
| "cv_folds T dataset optimizer loss_fn num_epochs ((train_idx, valid_idx) # rest) inner_cv_loss st =
     (let train_data = \<lparr>sub_dataset = dataset, sub_indices = train_idx\<rparr>;
          valid_data = \<lparr>sub_dataset = dataset, sub_indices = valid_idx\<rparr>
      in case DataLoader_init train_data 32 True of
           Inl e \<Rightarrow> (Inl e, st)
         | Inr train_loader \<Rightarrow>
             (case DataLoader_init valid_data 32 True of
                Inl e \<Rightarrow> (Inl e, st)
              | Inr valid_loader \<Rightarrow>
                  (let (p, w) = reset_parameters T (world st);
                       st1 = st\<lparr>params := p, world := w\<rparr>
                   in case train num_epochs T train_loader optimizer loss_fn st1 of
                        (Inl e, st2) \<Rightarrow> (Inl e, st2)
                      | (Inr optimizer', st2) \<Rightarrow>
                          (case validate T valid_loader loss_fn st2 of
                             (Inl e, st3) \<Rightarrow> (Inl e, st3)
                           | (Inr loss_v, st3) \<Rightarrow>
                               cv_folds T dataset optimizer' loss_fn num_epochs rest
                                 (inner_cv_loss @ [loss_v]) st3))))"

definition cv_objective ::
  "('p, 'o, 'w, 'f) torch \<Rightarrow> 'f data list \<Rightarrow> trial \<Rightarrow> nat \<Rightarrow> 'f data Subset \<Rightarrow> loss_fn \<Rightarrow> nat \<Rightarrow>
   ('p, 'w) state \<Rightarrow> (error + real) \<times> ('p, 'w) state" where
  "cv_objective T dataset trial k_inner train_val_data loss_fn num_epochs st =
     (let st0 = logger_info PerformingInnerCV st;
          lr = suggest_float trial ''lr'' (1 / 100000) (1 / 100);
          weight_decay = suggest_float trial ''weight_decay'' (1 / 100000) (1 / 1000);
          optimizer = \<lparr>opt_lr = lr, opt_weight_decay = weight_decay, opt_state = adam_init T\<rparr>;
          n = length (sub_indices train_val_data)
      in case kfold_split (kfold_shuffle T 0 n) k_inner n of
           Inl e \<Rightarrow> (Inl e, st0)
         | Inr folds \<Rightarrow>
             (case cv_folds T dataset optimizer loss_fn num_epochs folds [] st0 of
                (Inl e, st') \<Rightarrow> (Inl e, st')
              | (Inr inner_cv_loss, st') \<Rightarrow> (Inr (np_mean inner_cv_loss), st')))"

subsection \<open>The search driver\<close>

text \<open>
  Modelled from the spec: the search driver (optuna's \<^verbatim>\<open>study.optimize\<close> and
  \<^verbatim>\<open>study.best_trial\<close>) is a library, absent from the repository. The spec has it invoke
  the objective once per trial, one trial after the other, bounded by a number of trials
  and a wall-clock timeout, record every trial result, and select the configuration with
  the minimum returned loss as best; an exception of the objective ends the run. Of
  several trials with the minimum loss the first is the best one; asking for the best
  trial of a study without trials is a ValueError.
\<close>

fun optimize ::
  "('p, 'o, 'w, 'f) torch \<Rightarrow> (trial \<Rightarrow> ('p, 'w) state \<Rightarrow> (error + real) \<times> ('p, 'w) state) \<Rightarrow>
   nat \<Rightarrow> real \<Rightarrow> (trial \<times> real) list \<Rightarrow> ('p, 'w) state \<Rightarrow>
   (error + (trial \<times> real) list) \<times> ('p, 'w) state" where
  "optimize T objective 0 timeout trials st = (Inr trials, st)"
| "optimize T objective (Suc n_trials) timeout trials st =
     (if timed_out T timeout (length trials) (world st) then (Inr trials, st)
      else (let (trial, w) = propose T trials (world st)
            in case objective trial (st\<lparr>world := w\<rparr>) of
                 (Inl e, st') \<Rightarrow> (Inl e, st')
               | (Inr v, st') \<Rightarrow> optimize T objective n_trials timeout (trials @ [(trial, v)]) st'))"

fun best_trial :: "(trial \<times> real) list \<Rightarrow> error + trial \<times> real" where
  "best_trial [] = Inl ValueError"
| "best_trial (t # rest) = Inr (fold (\<lambda>c best. if snd c < snd best then c else best) rest t)"

subsection \<open>Outer cross-validation\<close>

text \<open>
  The keys \<^verbatim>\<open>nested_cv_experiment\<close> unpacks from its configuration. The model
  (\<^verbatim>\<open>config['model']\<close>) is the one of the state.
\<close>

record ('p, 'w, 'f) config =
  cfg_dataset :: "'f data list"
  cfg_loss_fn :: loss_fn
  cfg_optimizer_class :: string
  cfg_num_epochs :: nat
  cfg_batch_size :: nat
  cfg_k_inner :: nat
  cfg_k_outer :: nat
  cfg_objective ::
    "trial \<Rightarrow> nat \<Rightarrow> 'f data Subset \<Rightarrow> loss_fn \<Rightarrow> nat \<Rightarrow> ('p, 'w) state \<Rightarrow>
     (error + real) \<times> ('p, 'w) state"
  cfg_n_trials :: nat
  cfg_timeout_optuna :: real

text \<open>The loop over the outer folds, with the local variables of the function it reads.\<close>

fun outer_folds ::
  "('p, 'o, 'w, 'f) torch \<Rightarrow> 'f data list \<Rightarrow> loss_fn \<Rightarrow> nat \<Rightarrow> nat \<Rightarrow> nat \<Rightarrow>
   (trial \<Rightarrow> nat \<Rightarrow> 'f data Subset \<Rightarrow> loss_fn \<Rightarrow> nat \<Rightarrow> ('p, 'w) state \<Rightarrow>
     (error + real) \<times> ('p, 'w) state) \<Rightarrow>
   real \<Rightarrow> (nat \<times> nat list \<times> nat list) list \<Rightarrow> real list \<Rightarrow> ('p, 'w) state \<Rightarrow>
   (error + real list) \<times> ('p, 'w) state" where
  "outer_folds T dataset loss_fn num_epochs k_inner k_outer objective timeout_optuna []
     eval_loss st = (Inr eval_loss, st)"
| "outer_folds T dataset loss_fn num_epochs k_inner k_outer objective timeout_optuna
     ((fold_idx, train_ids, test_ids) # rest) eval_loss st =
     (let st1 = logger_info (FoldOutOf fold_idx k_outer) st;
          st2 = logger_info (TrainValidateLength (length train_ids) (length test_ids)
                  (length test_ids + length train_ids)) st1;
          train_data = \<lparr>sub_dataset = dataset, sub_indices = train_ids\<rparr>;
          test_data = \<lparr>sub_dataset = dataset, sub_indices = test_ids\<rparr>;
          (p, w) = reset_parameters T (world st2);
          st3 = logger_info OptimizingHparams (st2\<lparr>params := p, world := w\<rparr>);
          cv_objective = (\<lambda>trial. objective trial k_inner train_data loss_fn num_epochs)
      in case optimize T cv_objective 2 timeout_optuna [] st3 of
           (Inl e, st4) \<Rightarrow> (Inl e, st4)
         | (Inr trials, st4) \<Rightarrow>
             (case best_trial trials of
                Inl e \<Rightarrow> (Inl e, st4)
              | Inr (best_params, _) \<Rightarrow>
                  (let st5 = logger_info BestHparams st4;
                       optimizer = \<lparr>opt_lr = best_params ''lr'',
                                    opt_weight_decay = best_params ''weight_decay'',
                                    opt_state = adam_init T\<rparr>;
                       st6 = logger_info TestOnUnseenData st5;
                       (p', w') = reset_parameters T (world st6);
                       st7 = st6\<lparr>params := p', world := w'\<rparr>
                   in case DataLoader_init train_data 32 False of
                        Inl e \<Rightarrow> (Inl e, st7)
                      | Inr train_loader \<Rightarrow>
                          (case train num_epochs T train_loader optimizer loss_fn st7 of
                             (Inl e, st8) \<Rightarrow> (Inl e, st8)
                           | (Inr _, st8) \<Rightarrow>
                               (case DataLoader_init test_data 32 False of
                                  Inl e \<Rightarrow> (Inl e, st8)
                                | Inr test_loader \<Rightarrow>
                                    (case test T test_loader loss_fn st8 of
                                       (Inl e, st9) \<Rightarrow> (Inl e, st9)
                                     | (Inr mse_fold, st9) \<Rightarrow>
                                         outer_folds T dataset loss_fn num_epochs k_inner
                                           k_outer objective timeout_optuna rest
                                           (eval_loss @ [mse_fold]) st9))))))"

text \<open>
  \<^verbatim>\<open>nested_cv_experiment\<close>: the function ends with the log record of the mean and has no
  \<^verbatim>\<open>return\<close> statement, so a call evaluates to \<^verbatim>\<open>None\<close>.
\<close>

definition nested_cv_experiment ::
  "('p, 'o, 'w, 'f) torch \<Rightarrow> ('p, 'w, 'f) config \<Rightarrow> ('p, 'w) state \<Rightarrow>
   (error + pyval) \<times> ('p, 'w) state" where
  "nested_cv_experiment T config st =
     (let dataset = cfg_dataset config;
          loss_fn = cfg_loss_fn config;
          optimizer_class = cfg_optimizer_class config;
          num_epochs = cfg_num_epochs config;
          batch_size = cfg_batch_size config;
          k_inner = cfg_k_inner config;
          k_outer = cfg_k_outer config;
          objective = cfg_objective config;
          n_trials = cfg_n_trials config;
          timeout_optuna = cfg_timeout_optuna config
      in case kfold_split (kfold_shuffle T 22 (length dataset)) k_outer (length dataset) of
           Inl e \<Rightarrow> (Inl e, st)
         | Inr folds \<Rightarrow>
             (case outer_folds T dataset loss_fn num_epochs k_inner k_outer objective
                     timeout_optuna (enumerate 0 folds) [] st of
                (Inl e, st') \<Rightarrow> (Inl e, st')
              | (Inr eval_loss, st') \<Rightarrow>
                  (Inr PyNone, logger_info (MeanMSEAcrossOuterCV (np_mean eval_loss)) st')))"

subsection \<open>Per-batch losses and their averages\<close>

text \<open>
  The per-batch losses of one epoch with the number of graphs of each batch, in the order
  \<open>train_batches\<close> meets them (up to the first batch that cannot be fetched), and the two
  averages of such a list: weighted by the batch sizes, and unweighted.
\<close>

fun epoch_steps ::
  "('p, 'o, 'w, 'f) torch \<Rightarrow> 'f data DataLoader \<Rightarrow> 'o optimizer \<Rightarrow> loss_fn \<Rightarrow> nat list list \<Rightarrow>
   ('p, 'w) state \<Rightarrow> (real \<times> nat) list" where
  "epoch_steps T train_loader opt loss_fn [] st = []"
| "epoch_steps T train_loader opt loss_fn (b # rest) st =
     (case train_step T train_loader opt loss_fn b st of
        (Inl e, st') \<Rightarrow> []
      | (Inr (loss, num_graphs, opt'), st') \<Rightarrow>
          (loss, num_graphs) # epoch_steps T train_loader opt' loss_fn rest st')"

definition epoch_trace ::
  "('p, 'o, 'w, 'f) torch \<Rightarrow> 'f data DataLoader \<Rightarrow> 'o optimizer \<Rightarrow> loss_fn \<Rightarrow>
   ('p, 'w) state \<Rightarrow> (real \<times> nat) list" where
  "epoch_trace T train_loader opt loss_fn st =
     (let (batches, w) = batch_sampler T train_loader (world st)
      in epoch_steps T train_loader opt loss_fn batches (st\<lparr>world := w\<rparr>))"

definition weighted_mean :: "(real \<times> nat) list \<Rightarrow> real" where
  "weighted_mean tr =
     sum_list (map (\<lambda>(loss, n). loss * real n) tr) / real (sum_list (map snd tr))"

definition naive_mean :: "(real \<times> nat) list \<Rightarrow> real" where
  "naive_mean tr = sum_list (map fst tr) / real (length tr)"

subsection \<open>A small instance\<close>

text \<open>
  Concrete collaborators, to run the functions on concrete inputs. The model predicts its
  one parameter for every graph; a reset sets the parameter to 0 and every optimizer step
  adds 1. The runtime records the graphs the model has seen: each forward pass appends the
  \<open>data_x\<close> of its batch. Nothing is shuffled, the driver proposes the same configuration
  for every trial and never times out.
\<close>

definition demo_torch :: "(real, unit, nat list, nat) torch" where
  "demo_torch =
     \<lparr>reset_parameters = (\<lambda>w. (0, w)),
      forward = (\<lambda>p training batch w. (map (\<lambda>g. p) batch, w @ map data_x batch)),
      adam_init = (),
      backward_step = (\<lambda>loss_fn opt p batch w. (p + 1, opt, w)),
      randperm = (\<lambda>n w. (\<lambda>i. i, w)),
      kfold_shuffle = (\<lambda>seed n i. i),
      propose = (\<lambda>trials w. (\<lambda>name. 1 / 1000, w)),
      timed_out = (\<lambda>timeout n w. False)\<rparr>"

text \<open>Four graphs, numbered 0 to 3 by \<open>data_x\<close>, with the targets 1, 3, 2 and 5.\<close>

definition demo_dataset :: "nat data list" where
  "demo_dataset =
     [\<lparr>data_x = 0, data_y = 1\<rparr>, \<lparr>data_x = 1, data_y = 3\<rparr>,
      \<lparr>data_x = 2, data_y = 2\<rparr>, \<lparr>data_x = 3, data_y = 5\<rparr>]"

definition demo_state :: "(real, nat list) state" where
  "demo_state = \<lparr>params = 0, training = False, world = [], logged = []\<rparr>"

definition demo_optimizer :: "unit optimizer" where
  "demo_optimizer = \<lparr>opt_lr = 1 / 1000, opt_weight_decay = 1 / 1000, opt_state = ()\<rparr>"

text \<open>
  The notebook's configuration on the four graphs, with two outer and two inner folds, one
  epoch, and a search budget of one trial.
\<close>

definition demo_config :: "(real, nat list, nat) config" where
  "demo_config =
     \<lparr>cfg_dataset = demo_dataset, cfg_loss_fn = MSELoss, cfg_optimizer_class = ''Adam'',
      cfg_num_epochs = 1, cfg_batch_size = 32, cfg_k_inner = 2, cfg_k_outer = 2,
      cfg_objective = cv_objective demo_torch demo_dataset, cfg_n_trials = 1,
      cfg_timeout_optuna = 300\<rparr>"

text \<open>A loader over ten graphs with the targets \<open>ys\<close>, in batches of four: sizes 4, 4, 2.\<close>

definition ten_loader :: "real list \<Rightarrow> nat data DataLoader" where
  "ten_loader ys =
     \<lparr>dl_dataset = \<lparr>sub_dataset = map (\<lambda>y. \<lparr>data_x = 0, data_y = y\<rparr>) ys,
                    sub_indices = [0, 1, 2, 3, 4, 5, 6, 7, 8, 9]\<rparr>,
      dl_batch_size = 4, dl_shuffle = False\<rparr>"

text \<open>Two raw files: \<open>a.csv\<close> with two rows, \<open>b.csv\<close> with one row.\<close>

definition demo_row :: "string \<Rightarrow> real \<Rightarrow> string \<Rightarrow> cell" where
  "demo_row smile y label = (if label = ''smiles'' then Str smile else Num y)"

definition demo_files :: "string \<rightharpoonup> dataframe" where
  "demo_files =
     [''a.csv'' \<mapsto> \<lparr>df_columns = [''smiles'', ''exp''],
                      df_rows = [demo_row ''CC'' 1, demo_row ''CCO'' 2]\<rparr>,
      ''b.csv'' \<mapsto> \<lparr>df_columns = [''smiles'', ''exp''], df_rows = [demo_row ''C'' 7]\<rparr>]"

definition demo_molecules :: MoleculeDataset where
  "demo_molecules =
     \<lparr>raw_paths = [''a.csv'', ''b.csv''], smiles_label = ''smiles'', target_label = ''exp''\<rparr>"

section \<open>Properties\<close>

subsection \<open>Runs of the small instance\<close>

text \<open>
  The results of the functions on the small instance, each computed from the definitions.
  The objective's run does not depend on the content of the pool it is given, only on its
  length.
\<close>

lemmas run_defs = test_def validate_def train_def train_one_epoch_def train_step_def batch_sampler_def
  DataLoader_init_def subset_getitem_def mean_squared_error_def MSELoss_def logger_info_def np_mean_def
  cv_objective_def kfold_split_def fold_sizes_def suggest_float_def Let_def

lemma demo_torch_simps:
  "reset_parameters demo_torch w = (0, w)"
  "timed_out demo_torch timeout n w = False"
  "propose demo_torch trials w = (\<lambda>name. 1 / 1000, w)"
  "adam_init demo_torch = ()"
  "kfold_shuffle demo_torch seed n = (\<lambda>i. i)"
  by (simp_all add: demo_torch_def)

lemma demo_cv_objective:
  "length idx = 2 \<Longrightarrow>
   cv_objective demo_torch demo_dataset trial 2 \<lparr>sub_dataset = ds, sub_indices = idx\<rparr> MSELoss
     (Suc 0) \<lparr>params = p, training = t, world = w, logged = l\<rparr>
   = (Inr 2,
      \<lparr>params = 1, training = False, world = w @ [1, 0, 0, 1],
         logged = l @ [PerformingInnerCV, EpochTrainLoss 0 9, EpochTrainLoss 0 1]\<rparr>)"
  by (simp add: demo_torch_def demo_dataset_def run_defs upt_rec)

lemma optimize_2:
  "optimize T objective 2 timeout trials st =
     (if timed_out T timeout (length trials) (world st) then (Inr trials, st)
      else (let (trial, w) = propose T trials (world st)
            in case objective trial (st\<lparr>world := w\<rparr>) of
                 (Inl e, st') \<Rightarrow> (Inl e, st')
               | (Inr v, st') \<Rightarrow>
                   optimize T objective (Suc 0) timeout (trials @ [(trial, v)]) st'))"
  by (simp add: numeral_2_eq_2)

lemma demo_optimize:
  "length idx = 2 \<Longrightarrow>
   optimize demo_torch
     (\<lambda>trial. cv_objective demo_torch demo_dataset trial 2
                \<lparr>sub_dataset = ds, sub_indices = idx\<rparr> MSELoss (Suc 0))
     2 300 [] \<lparr>params = p, training = t, world = w, logged = l\<rparr>
   = (Inr [(\<lambda>name. 1 / 1000, 2), (\<lambda>name. 1 / 1000, 2)],
      \<lparr>params = 1, training = False, world = w @ [1, 0, 0, 1, 1, 0, 0, 1],
         logged = l @ [PerformingInnerCV, EpochTrainLoss 0 9, EpochTrainLoss 0 1,
                       PerformingInnerCV, EpochTrainLoss 0 9, EpochTrainLoss 0 1]\<rparr>)"
  by (simp add: optimize_2 demo_cv_objective demo_torch_simps)

lemma demo_train_23:
  "train (Suc 0) demo_torch
     \<lparr>dl_dataset = \<lparr>sub_dataset = demo_dataset, sub_indices = [2, 3]\<rparr>, dl_batch_size = 32,
        dl_shuffle = False\<rparr>
     opt MSELoss \<lparr>params = 0, training = t, world = w, logged = l\<rparr>
   = (Inr opt, \<lparr>params = 1, training = True, world = w @ [2, 3],
                  logged = l @ [EpochTrainLoss 0 (29 / 2)]\<rparr>)"
  by (simp add: demo_torch_def demo_dataset_def run_defs upt_rec)

lemma demo_train_01:
  "train (Suc 0) demo_torch
     \<lparr>dl_dataset = \<lparr>sub_dataset = demo_dataset, sub_indices = [0, Suc 0]\<rparr>, dl_batch_size = 32,
        dl_shuffle = False\<rparr>
     opt MSELoss \<lparr>params = 0, training = t, world = w, logged = l\<rparr>
   = (Inr opt, \<lparr>params = 1, training = True, world = w @ [0, 1],
                  logged = l @ [EpochTrainLoss 0 5]\<rparr>)"
  by (simp add: demo_torch_def demo_dataset_def run_defs upt_rec)

lemma demo_test_01:
  "test demo_torch
     \<lparr>dl_dataset = \<lparr>sub_dataset = demo_dataset, sub_indices = [0, Suc 0]\<rparr>, dl_batch_size = 32,
        dl_shuffle = False\<rparr>
     MSELoss \<lparr>params = p, training = t, world = w, logged = l\<rparr>
   = (Inr 2, \<lparr>params = p, training = False, world = w @ [0, 1],
                logged = l @ [TestEvaluationMSE 2]\<rparr>)"
  by (simp add: demo_torch_def demo_dataset_def run_defs upt_rec)

lemma demo_test_23:
  "test demo_torch
     \<lparr>dl_dataset = \<lparr>sub_dataset = demo_dataset, sub_indices = [2, 3]\<rparr>, dl_batch_size = 32,
        dl_shuffle = False\<rparr>
     MSELoss \<lparr>params = p, training = t, world = w, logged = l\<rparr>
   = (Inr (9 / 2), \<lparr>params = p, training = False, world = w @ [2, 3],
                      logged = l @ [TestEvaluationMSE (9 / 2)]\<rparr>)"
  by (simp add: demo_torch_def demo_dataset_def run_defs upt_rec)

lemma demo_kfold_outer:
  "kfold_split (\<lambda>i. i) 2 4 = Inr [([2, 3], [0, 1]), ([0, 1], [2, 3])]"
  by (simp add: kfold_split_def fold_sizes_def upt_rec)

lemma demo_len: "length demo_dataset = 4"
  by (simp add: demo_dataset_def)

lemma demo_run:
  "nested_cv_experiment demo_torch demo_config demo_state =
     (Inr PyNone,
      \<lparr>params = 1, training = False,
         world = [1, 0, 0, 1, 1, 0, 0, 1, 2, 3, 0, 1, 1, 0, 0, 1, 1, 0, 0, 1, 0, 1, 2, 3],
         logged =
           [FoldOutOf 0 2, TrainValidateLength 2 2 4, OptimizingHparams,
            PerformingInnerCV, EpochTrainLoss 0 9, EpochTrainLoss 0 1,
            PerformingInnerCV, EpochTrainLoss 0 9, EpochTrainLoss 0 1,
            BestHparams, TestOnUnseenData, EpochTrainLoss 0 (29 / 2), TestEvaluationMSE 2,
            FoldOutOf 1 2, TrainValidateLength 2 2 4, OptimizingHparams,
            PerformingInnerCV, EpochTrainLoss 0 9, EpochTrainLoss 0 1,
            PerformingInnerCV, EpochTrainLoss 0 9, EpochTrainLoss 0 1,
            BestHparams, TestOnUnseenData, EpochTrainLoss 0 5, TestEvaluationMSE (9 / 2),
            MeanMSEAcrossOuterCV (13 / 4)]\<rparr>)"
  unfolding nested_cv_experiment_def demo_config_def demo_state_def
  by (simp add: demo_torch_simps demo_kfold_outer demo_optimize demo_train_23 demo_train_01
       demo_test_01 demo_test_23 logger_info_def np_mean_def demo_len DataLoader_init_def)

subsection \<open>K-fold splits\<close>

lemma sum_list_indicator: "sum_list (map (\<lambda>i. if i < m then (1::nat) else 0) [0..<k]) = min m k"
  by (induction k) auto

lemma sum_list_fold_sizes: "0 < k \<Longrightarrow> sum_list (fold_sizes n k) = n"
proof -
  assume k: "0 < k"
  have "sum_list (fold_sizes n k) =
        sum_list (map (\<lambda>i. n div k) [0..<k]) + sum_list (map (\<lambda>i. if i < n mod k then (1::nat) else 0) [0..<k])"
    unfolding fold_sizes_def by (simp add: sum_list_addf)
  also have "\<dots> = k * (n div k) + min (n mod k) k"
    by (simp add: sum_list_indicator sum_list_triv)
  also have "\<dots> = n" using k by simp
  finally show ?thesis .
qed

lemma length_slices: "length (slices ss xs) = length ss"
  by (induction ss arbitrary: xs) auto

lemma concat_slices: "concat (slices ss xs) = take (sum_list ss) xs"
  by (induction ss arbitrary: xs) (auto simp: take_add)

lemma set_slices_subset: "i < length ss \<Longrightarrow> set (slices ss xs ! i) \<subseteq> set xs"
proof (induction ss arbitrary: xs i)
  case Nil then show ?case by simp
next
  case (Cons s ss)
  show ?case
  proof (cases i)
    case 0 then show ?thesis by (simp add: set_take_subset)
  next
    case (Suc i')
    then have "set (slices ss (drop s xs) ! i') \<subseteq> set (drop s xs)"
      using Cons by simp
    then show ?thesis using Suc set_drop_subset[of s xs] by auto
  qed
qed

lemma slices_disjoint:
  "distinct xs \<Longrightarrow> i < j \<Longrightarrow> j < length ss \<Longrightarrow>
   set (slices ss xs ! i) \<inter> set (slices ss xs ! j) = {}"
proof (induction ss arbitrary: xs i j)
  case Nil then show ?case by simp
next
  case (Cons s ss)
  obtain j' where j: "j = Suc j'" using Cons.prems(2) by (cases j) auto
  show ?case
  proof (cases i)
    case 0
    have "set (slices ss (drop s xs) ! j') \<subseteq> set (drop s xs)"
      using Cons.prems(3) j by (intro set_slices_subset) simp
    moreover have "set (take s xs) \<inter> set (drop s xs) = {}"
      using Cons.prems(1) by (rule set_take_disj_set_drop_if_distinct) simp
    ultimately show ?thesis using 0 j by auto
  next
    case (Suc i')
    then show ?thesis using Cons j by simp
  qed
qed

text \<open>
  Claim C6. For \<open>K \<ge> 2\<close> and \<open>N \<ge> K\<close>, a K-fold split of \<open>N\<close> indices (the outer one over
  the whole dataset, the inner one over the length of the outer train-subset) yields \<open>K\<close>
  splits whose validation sets are pairwise disjoint and have the union \<open>{0..N-1}\<close>, and
  the training set of each split is the complement of its validation set. The shuffle of
  the splitter is any permutation of the indices.
\<close>

theorem kfold_split_partition:
  assumes "2 \<le> k" and "k \<le> n" and "bij_betw perm {0..<n} {0..<n}"
  shows "\<exists>folds. kfold_split perm k n = Inr folds \<and> length folds = k
      \<and> (\<forall>i<k. \<forall>j<k. i \<noteq> j \<longrightarrow> set (snd (folds ! i)) \<inter> set (snd (folds ! j)) = {})
      \<and> (\<Union>f \<in> set folds. set (snd f)) = {0..<n}
      \<and> (\<forall>f \<in> set folds. set (fst f) = {0..<n} - set (snd f))"
proof -
  define xs where "xs = map perm [0..<n]"
  define sl where "sl = slices (fold_sizes n k) xs"
  define mk where "mk = (\<lambda>test_fold. (filter (\<lambda>i. i \<notin> set test_fold) [0..<n],
                                      filter (\<lambda>i. i \<in> set test_fold) [0..<n]))"
  define folds where "folds = map mk sl"
  have split: "kfold_split perm k n = Inr folds"
    using assms(1,2) by (simp add: kfold_split_def folds_def mk_def sl_def xs_def)
  have len_sl: "length sl = k"
    by (simp add: sl_def length_slices fold_sizes_def)
  have set_xs: "set xs = {0..<n}"
    using assms(3) by (simp add: xs_def bij_betw_def)
  have dist_xs: "distinct xs"
    using assms(3) by (simp add: xs_def distinct_map bij_betw_def)
  have sub: "set (sl ! i) \<subseteq> {0..<n}" if "i < k" for i
    using set_slices_subset[of i "fold_sizes n k" xs] that set_xs
    by (simp add: sl_def fold_sizes_def)
  have te: "set (snd (folds ! i)) = set (sl ! i)" if "i < k" for i
    using that sub[OF that] len_sl by (auto simp: folds_def mk_def)
  have disj: "set (sl ! i) \<inter> set (sl ! j) = {}" if "i < k" "j < k" "i \<noteq> j" for i j
  proof (cases "i < j")
    case True
    then show ?thesis using slices_disjoint[OF dist_xs, of i j "fold_sizes n k"] that
      by (simp add: sl_def fold_sizes_def)
  next
    case False
    then have "j < i" using that by simp
    then have "set (sl ! j) \<inter> set (sl ! i) = {}"
      using slices_disjoint[OF dist_xs, of j i "fold_sizes n k"] that
      by (simp add: sl_def fold_sizes_def)
    then show ?thesis by blast
  qed
  have "concat sl = xs"
    using assms(1) by (simp add: sl_def concat_slices sum_list_fold_sizes xs_def)
  then have un_sl: "(\<Union>s \<in> set sl. set s) = {0..<n}"
    using set_xs by (metis set_concat)
  have sub': "set s \<subseteq> {0..<n}" if "s \<in> set sl" for s
    using that un_sl by blast
  have un: "(\<Union>f \<in> set folds. set (snd f)) = {0..<n}"
  proof -
    have "(\<Union>f \<in> set folds. set (snd f)) = (\<Union>s \<in> set sl. set (snd (mk s)))"
      by (simp add: folds_def)
    also have "\<dots> = (\<Union>s \<in> set sl. set s)"
    proof (intro SUP_cong refl)
      fix s assume "s \<in> set sl"
      then have "set s \<subseteq> {0..<n}" by (rule sub')
      then show "set (snd (mk s)) = set s" by (auto simp: mk_def)
    qed
    finally show ?thesis using un_sl by simp
  qed
  have compl: "set (fst f) = {0..<n} - set (snd f)" if "f \<in> set folds" for f
    using that by (auto simp: folds_def mk_def)
  show ?thesis
    using split len_sl te disj un compl by (intro exI[of _ folds]) (simp add: folds_def)
qed

text \<open>The theorem at a reversing shuffle of five indices, two folds.\<close>

lemma demo_perm_bij: "bij_betw (\<lambda>i. 4 - i) {0..<5::nat} {0..<5}"
  by (rule bij_betw_byWitness[where f' = "\<lambda>i. 4 - i"]) auto

theorem kfold_split_partition_witness:
  "kfold_split (\<lambda>i. 4 - i) 2 5 = Inr [([0, 1], [2, 3, 4]), ([2, 3, 4], [0, 1])] \<and>
   (\<exists>folds. kfold_split (\<lambda>i. 4 - i) 2 5 = Inr folds \<and> length folds = 2
      \<and> (\<forall>i<2. \<forall>j<2. i \<noteq> j \<longrightarrow> set (snd (folds ! i)) \<inter> set (snd (folds ! j)) = {})
      \<and> (\<Union>f \<in> set folds. set (snd f)) = {0..<5}
      \<and> (\<forall>f \<in> set folds. set (fst f) = {0..<5} - set (snd f)))"
proof
  show "kfold_split (\<lambda>i. 4 - i) 2 5 = Inr [([0, 1], [2, 3, 4]), ([2, 3, 4], [0, 1])]"
    by (simp add: kfold_split_def fold_sizes_def upt_rec)
  have "(2::nat) \<le> 2" "(2::nat) \<le> 5" by simp_all
  then show "\<exists>folds. kfold_split (\<lambda>i. 4 - i) 2 5 = Inr folds \<and> length folds = 2
      \<and> (\<forall>i<2. \<forall>j<2. i \<noteq> j \<longrightarrow> set (snd (folds ! i)) \<inter> set (snd (folds ! j)) = {})
      \<and> (\<Union>f \<in> set folds. set (snd f)) = {0..<5}
      \<and> (\<forall>f \<in> set folds. set (fst f) = {0..<5} - set (snd f))"
    using demo_perm_bij by (rule kfold_split_partition)
qed

subsection \<open>The data of the inner folds\<close>

text \<open>The objective reads its pool for the number of its items only.\<close>

lemma cv_objective_pool_length_only:
  "length (sub_indices pool) = length (sub_indices pool') \<Longrightarrow>
   cv_objective T dataset trial k_inner pool loss_fn num_epochs st =
   cv_objective T dataset trial k_inner pool' loss_fn num_epochs st"
  by (simp add: cv_objective_def)

text \<open>
  Claim C1 (the inner folds are drawn from the pool passed in, and from nothing else)
  does not hold of the code. The pool here is the subset of the graphs 2 and 3 of the four
  graphs, the train-subset of the outer fold whose test graphs are 0 and 1.
  \<open>cv_objective\<close> splits the indices \<open>0, 1\<close> of the pool's length and takes the subsets
  of the global dataset at them: the model sees the graphs 1, 0, 0, 1 (inner training and
  validation of the two folds), none of them in the pool.
\<close>

theorem inner_folds_leave_pool:
  "world (snd (cv_objective demo_torch demo_dataset (\<lambda>name. 1 / 1000) 2
                 \<lparr>sub_dataset = demo_dataset, sub_indices = [2, 3]\<rparr> MSELoss 1 demo_state))
     = [1, 0, 0, 1] \<and>
   map data_x (map (\<lambda>i. demo_dataset ! i) [2, 3]) = [2, 3]"
  by (simp add: demo_cv_objective demo_state_def) (simp add: demo_dataset_def)

subsection \<open>The mean loss of an epoch\<close>

lemma concat_chunks: "0 < n \<Longrightarrow> concat (chunks n xs) = xs"
  by (induction n xs rule: chunks.induct) auto

lemma chunks_member:
  "c \<in> set (chunks n xs) \<Longrightarrow> c \<noteq> [] \<and> set c \<subseteq> set xs"
proof (induction n xs rule: chunks.induct)
  case (1 n)
  then show ?case by simp
next
  case (2 n x xs)
  show ?case
  proof (cases "n = 0")
    case True
    with 2 show ?thesis by simp
  next
    case False
    then have "c = take n (x # xs) \<or> c \<in> set (chunks n (drop n (x # xs)))"
      using "2.prems" by simp
    then show ?thesis
    proof
      assume c: "c = take n (x # xs)"
      have "set (take n (x # xs)) \<subseteq> set (x # xs)" by (rule set_take_subset)
      moreover have "take n (x # xs) \<noteq> []" using False by (cases n) auto
      ultimately show ?thesis using c by simp
    next
      assume "c \<in> set (chunks n (drop n (x # xs)))"
      then have "c \<noteq> [] \<and> set c \<subseteq> set (drop n (x # xs))"
        using "2.IH" False by simp
      moreover have "set (drop n (x # xs)) \<subseteq> set (x # xs)" by (rule set_drop_subset)
      ultimately show ?thesis by blast
    qed
  qed
qed

lemma fetch_in_range:
  "\<forall>i \<in> set b. i < length (sub_indices s) \<and> sub_indices s ! i < length (sub_dataset s) \<Longrightarrow>
   \<exists>items. fetch s b = Inr items \<and> length items = length b"
  by (induction b) (auto simp: subset_getitem_def)

lemma train_step_in_range:
  assumes "\<forall>i \<in> set b. i < length (sub_indices (dl_dataset L)) \<and>
             sub_indices (dl_dataset L) ! i < length (sub_dataset (dl_dataset L))"
  shows "\<exists>loss opt' st'. train_step T L opt loss_fn b st = (Inr (loss, length b, opt'), st')"
proof -
  obtain items where "fetch (dl_dataset L) b = Inr items" "length items = length b"
    using fetch_in_range[OF assms] by blast
  then show ?thesis
    by (simp add: train_step_def Let_def split: prod.splits)
qed

lemma train_batches_sums:
  "train_batches T L opt loss_fn bs (rl, nd) st = (Inr ((rl', nd'), opt'), st') \<Longrightarrow>
   rl' = rl + sum_list (map (\<lambda>(loss, n). loss * real n) (epoch_steps T L opt loss_fn bs st)) \<and>
   nd' = nd + sum_list (map snd (epoch_steps T L opt loss_fn bs st))"
proof (induction bs arbitrary: opt rl nd st)
  case Nil
  then show ?case by simp
next
  case (Cons b bs)
  obtain r s1 where step: "train_step T L opt loss_fn b st = (r, s1)" by (cases "train_step T L opt loss_fn b st")
  show ?case
  proof (cases r)
    case (Inl e)
    with Cons.prems step show ?thesis by simp
  next
    case (Inr v)
    obtain loss n opt1 where v: "v = (loss, n, opt1)" by (cases v)
    have "train_batches T L opt1 loss_fn bs (rl + loss * real n, nd + n) s1 = (Inr ((rl', nd'), opt'), st')"
      using Cons.prems step Inr v by simp
    from Cons.IH[OF this] show ?thesis using step Inr v by (simp add: algebra_simps)
  qed
qed

lemma train_batches_in_range:
  assumes "\<forall>b \<in> set bs. \<forall>i \<in> set b. i < length (sub_indices (dl_dataset L)) \<and>
             sub_indices (dl_dataset L) ! i < length (sub_dataset (dl_dataset L))"
  shows "(\<exists>acc opt' st'. train_batches T L opt loss_fn bs (rl, nd) st = (Inr (acc, opt'), st')) \<and>
         map snd (epoch_steps T L opt loss_fn bs st) = map length bs"
  using assms
proof (induction bs arbitrary: opt rl nd st)
  case Nil
  then show ?case by simp
next
  case (Cons b bs)
  have "\<forall>i \<in> set b. i < length (sub_indices (dl_dataset L)) \<and>
             sub_indices (dl_dataset L) ! i < length (sub_dataset (dl_dataset L))"
    using Cons.prems by simp
  then obtain loss opt1 s1 where step: "train_step T L opt loss_fn b st = (Inr (loss, length b, opt1), s1)"
    using train_step_in_range by blast
  have rest: "\<forall>b \<in> set bs. \<forall>i \<in> set b. i < length (sub_indices (dl_dataset L)) \<and>
             sub_indices (dl_dataset L) ! i < length (sub_dataset (dl_dataset L))"
    using Cons.prems by simp
  from Cons.IH[OF rest, of opt1 "rl + loss * real (length b)" "nd + length b" s1]
  show ?case using step by simp
qed

lemma weighted_eq_naive:
  assumes "tr \<noteq> []" and "0 < m" and "\<forall>x \<in> set tr. snd x = m"
  shows "weighted_mean tr = naive_mean tr"
proof -
  have a: "sum_list (map (\<lambda>(loss, n). loss * real n) tr) = real m * sum_list (map fst tr)"
    using assms(3) by (induction tr) (auto simp: algebra_simps)
  have b: "sum_list (map snd tr) = m * length tr"
    using assms(3) by (induction tr) auto
  show ?thesis
    using assms(1,2) by (simp add: weighted_mean_def naive_mean_def a b)
qed

lemma batch_sampler_in_range:
  assumes "batch_sampler T L w = (bs, w')"
    and "0 < dl_batch_size L"
    and "dl_shuffle L \<longrightarrow>
           (\<forall>i<length (sub_indices (dl_dataset L)).
              fst (randperm T (length (sub_indices (dl_dataset L))) w) i
                < length (sub_indices (dl_dataset L)))"
  shows "(\<forall>b \<in> set bs. b \<noteq> [] \<and> (\<forall>i \<in> set b. i < length (sub_indices (dl_dataset L)))) \<and>
         sum_list (map length bs) = length (sub_indices (dl_dataset L))"
proof -
  define n where "n = length (sub_indices (dl_dataset L))"
  define order where "order = (if dl_shuffle L then map (fst (randperm T n w)) [0..<n] else [0..<n])"
  have bs: "bs = chunks (dl_batch_size L) order"
    using assms(1) by (auto simp: batch_sampler_def Let_def order_def n_def split: if_splits prod.splits)
  have order: "\<forall>i \<in> set order. i < n"
    using assms(3) by (auto simp: order_def n_def)
  have len: "length order = n"
    by (simp add: order_def)
  have "\<forall>b \<in> set bs. b \<noteq> [] \<and> (\<forall>i \<in> set b. i < n)"
    using chunks_member[of _ "dl_batch_size L" order] order bs by blast
  moreover have "sum_list (map length bs) = n"
    using concat_chunks[OF assms(2), of order] len bs by (metis length_concat)
  ultimately show ?thesis by (simp add: n_def)
qed

text \<open>
  Claim C5, as amended. On a training loader with a positive batch size whose subset is
  not empty and has its indices in range (and whose shuffled order, if it shuffles, stays
  in range), \<open>train_one_epoch\<close> returns the mean of the per-batch losses weighted by the
  batch sizes: the sum of loss times number of graphs, divided by the number of samples.
  When all batches have the same size, this is the unweighted mean of the batch losses.
\<close>

theorem train_one_epoch_weighted_mean:
  assumes "0 < dl_batch_size loader"
    and "sub_indices (dl_dataset loader) \<noteq> []"
    and "\<forall>j \<in> set (sub_indices (dl_dataset loader)). j < length (sub_dataset (dl_dataset loader))"
    and "dl_shuffle loader \<longrightarrow>
           (\<forall>i<length (sub_indices (dl_dataset loader)).
              fst (randperm T (length (sub_indices (dl_dataset loader))) (world st)) i
                < length (sub_indices (dl_dataset loader)))"
  shows "(\<exists>opt' st'. train_one_epoch T loader opt loss_fn st =
            (Inr (weighted_mean (epoch_trace T loader opt loss_fn st), opt'), st')) \<and>
         sum_list (map snd (epoch_trace T loader opt loss_fn st))
           = length (sub_indices (dl_dataset loader)) \<and>
         ((\<forall>x \<in> set (epoch_trace T loader opt loss_fn st). snd x = m) \<longrightarrow>
            weighted_mean (epoch_trace T loader opt loss_fn st)
              = naive_mean (epoch_trace T loader opt loss_fn st))"
proof -
  define n where "n = length (sub_indices (dl_dataset loader))"
  obtain bs w where samp: "batch_sampler T loader (world st) = (bs, w)"
    by (cases "batch_sampler T loader (world st)")
  define st0 where "st0 = st\<lparr>world := w\<rparr>"
  define tr where "tr = epoch_steps T loader opt loss_fn bs st0"
  have tr: "epoch_trace T loader opt loss_fn st = tr"
    by (simp add: epoch_trace_def samp tr_def st0_def)
  have range: "(\<forall>b \<in> set bs. b \<noteq> [] \<and> (\<forall>i \<in> set b. i < n)) \<and> sum_list (map length bs) = n"
    using batch_sampler_in_range[OF samp assms(1) assms(4)] by (simp add: n_def)
  have ok: "\<forall>b \<in> set bs. \<forall>i \<in> set b. i < length (sub_indices (dl_dataset loader)) \<and>
             sub_indices (dl_dataset loader) ! i < length (sub_dataset (dl_dataset loader))"
    using range assms(3) by (auto simp: n_def)
  obtain acc opt' st' where run: "train_batches T loader opt loss_fn bs (0, 0) st0 = (Inr (acc, opt'), st')"
    and counts: "map snd tr = map length bs"
    using train_batches_in_range[OF ok, of T opt loss_fn 0 0 st0] by (auto simp: tr_def)
  obtain rl nd where acc: "acc = (rl, nd)" by (cases acc)
  have sums: "rl = sum_list (map (\<lambda>(loss, n). loss * real n) tr)" "nd = sum_list (map snd tr)"
    using train_batches_sums[of T loader opt loss_fn bs 0 0 st0 rl nd opt' st'] run acc
    by (simp_all add: tr_def)
  have nd: "nd = n" using sums(2) counts range by simp
  have pos: "0 < n" using assms(2) by (simp add: n_def)
  have res: "train_one_epoch T loader opt loss_fn st = (Inr (weighted_mean tr, opt'), st')"
    using run acc nd pos sums
    by (simp add: train_one_epoch_def samp st0_def[symmetric] weighted_mean_def)
  have eq: "weighted_mean tr = naive_mean tr" if all: "\<forall>x \<in> set tr. snd x = m"
  proof -
    have ne: "tr \<noteq> []" using sums(2) nd pos by auto
    then obtain x where x: "x \<in> set tr" by (cases tr) auto
    then have "snd x \<in> set (map length bs)" using counts by (metis imageI set_map)
    then obtain b where "b \<in> set bs" "snd x = length b" by auto
    then have "0 < snd x" using range by auto
    then have "0 < m" using all x by auto
    then show ?thesis using ne all by (intro weighted_eq_naive)
  qed
  show ?thesis
    using res eq sums(2) nd by (simp add: tr n_def)
qed

text \<open>
  Ten graphs in batches of 4, 4 and 2. With the targets 1, 1, 1, 1, 2, 2, 2, 2, 3, 3 every
  batch has the loss 1, and the weighted mean is the unweighted one although the sizes
  differ. With the targets 0 the batch losses are 0, 1 and 4: the weighted mean is 6/5,
  the unweighted one 5/3.
\<close>

lemma ten_equal_losses:
  "train_one_epoch demo_torch (ten_loader [1, 1, 1, 1, 2, 2, 2, 2, 3, 3]) demo_optimizer MSELoss demo_state
     = (Inr (1, demo_optimizer), \<lparr>params = 3, training = False, world = [0,0,0,0,0,0,0,0,0,0], logged = []\<rparr>)"
  by (simp add: demo_torch_def ten_loader_def demo_state_def run_defs upt_rec)

lemma ten_equal_trace:
  "epoch_trace demo_torch (ten_loader [1, 1, 1, 1, 2, 2, 2, 2, 3, 3]) demo_optimizer MSELoss demo_state
     = [(1, 4), (1, 4), (1, 2)]"
  by (simp add: epoch_trace_def demo_torch_def ten_loader_def demo_state_def run_defs upt_rec)

lemma ten_zero_trace:
  "epoch_trace demo_torch (ten_loader [0, 0, 0, 0, 0, 0, 0, 0, 0, 0]) demo_optimizer MSELoss demo_state
     = [(0, 4), (1, 4), (4, 2)]"
  by (simp add: epoch_trace_def demo_torch_def ten_loader_def demo_state_def run_defs upt_rec)

theorem weighted_differs_counterexample:
  "fst (train_one_epoch demo_torch (ten_loader [1, 1, 1, 1, 2, 2, 2, 2, 3, 3]) demo_optimizer MSELoss demo_state)
     = Inr (1, demo_optimizer) \<and>
   map snd (epoch_trace demo_torch (ten_loader [1, 1, 1, 1, 2, 2, 2, 2, 3, 3]) demo_optimizer MSELoss demo_state)
     = [4, 4, 2] \<and>
   naive_mean (epoch_trace demo_torch (ten_loader [1, 1, 1, 1, 2, 2, 2, 2, 3, 3]) demo_optimizer MSELoss demo_state)
     = 1"
  by (simp add: ten_equal_losses ten_equal_trace naive_mean_def)

theorem train_one_epoch_weighted_mean_witness:
  "(\<exists>opt' st'. train_one_epoch demo_torch (ten_loader [0, 0, 0, 0, 0, 0, 0, 0, 0, 0]) demo_optimizer MSELoss demo_state
       = (Inr (6 / 5, opt'), st')) \<and>
   map snd (epoch_trace demo_torch (ten_loader [0, 0, 0, 0, 0, 0, 0, 0, 0, 0]) demo_optimizer MSELoss demo_state) = [4, 4, 2] \<and>
   naive_mean (epoch_trace demo_torch (ten_loader [0, 0, 0, 0, 0, 0, 0, 0, 0, 0]) demo_optimizer MSELoss demo_state) = 5 / 3"
proof -
  let ?L = "ten_loader [0, 0, 0, 0, 0, 0, 0, 0, 0, 0]"
  have a: "0 < dl_batch_size ?L" by (simp add: ten_loader_def)
  have b: "sub_indices (dl_dataset ?L) \<noteq> []" by (simp add: ten_loader_def)
  have c: "\<forall>j \<in> set (sub_indices (dl_dataset ?L)). j < length (sub_dataset (dl_dataset ?L))"
    by (simp add: ten_loader_def)
  have d: "dl_shuffle ?L \<longrightarrow>
           (\<forall>i<length (sub_indices (dl_dataset ?L)).
              fst (randperm demo_torch (length (sub_indices (dl_dataset ?L))) (world demo_state)) i
                < length (sub_indices (dl_dataset ?L)))"
    by (simp add: ten_loader_def)
  have w: "weighted_mean [(0, 4), (1, 4), (4, 2)] = 6 / 5"
    by (simp add: weighted_mean_def)
  show ?thesis
    using train_one_epoch_weighted_mean[OF a b c d, of demo_optimizer MSELoss 4] w
    by (simp add: ten_zero_trace naive_mean_def)
qed

subsection \<open>The metric of the test variant\<close>

text \<open>
  Claim C2 (the test variant returns the mean squared error of all predictions against
  all targets) does not hold of the code. The model here predicts 0 for the two test
  graphs, whose targets are 1 and 3. The mean squared error of the predictions against the
  targets is 5; \<open>test\<close> compares row 1 of the stacked output, \<open>[0, 3]\<close>, with row 0,
  \<open>[0, 1]\<close>, and returns 2.
\<close>

theorem test_compares_rows:
  "fst (test demo_torch
          \<lparr>dl_dataset = \<lparr>sub_dataset = demo_dataset, sub_indices = [0, 1]\<rparr>, dl_batch_size = 32,
             dl_shuffle = False\<rparr> MSELoss demo_state) = Inr 2 \<and>
   mean_squared_error [1, 3] [0, 0] = Inr 5"
  by (simp add: demo_test_01 demo_state_def) (simp add: mean_squared_error_def)

subsection \<open>Evaluation leaves the parameters alone\<close>

lemma validate_batches_params:
  "params (snd (validate_batches T L loss_fn bs acc st)) = params st"
proof (induction bs arbitrary: acc st)
  case Nil
  then show ?case by simp
next
  case (Cons b bs)
  obtain vl nd where acc: "acc = (vl, nd)" by (cases acc)
  show ?case
  proof (cases "fetch (dl_dataset L) b")
    case (Inl e)
    then show ?thesis using acc by simp
  next
    case (Inr items)
    then show ?thesis using acc Cons.IH
      by (simp add: Let_def split: prod.splits)
  qed
qed

lemma test_batches_params:
  "params (snd (test_batches T L loss_fn bs outp st)) = params st"
proof (induction bs arbitrary: outp st)
  case Nil
  then show ?case by simp
next
  case (Cons b bs)
  show ?case
  proof (cases "fetch (dl_dataset L) b")
    case (Inl e)
    then show ?thesis by simp
  next
    case (Inr items)
    then show ?thesis using Cons.IH
      by (simp add: Let_def split: prod.splits)
  qed
qed

text \<open>
  Claim C8. \<open>validate\<close> and \<open>test\<close> leave the learnable parameters of the model as they
  were, whatever the model, the loader and the loss function are, and also when they end
  with an exception.
\<close>

theorem evaluators_keep_params:
  "params (snd (validate T loader loss_fn st)) = params st \<and>
   params (snd (test T loader loss_fn st)) = params st"
proof
  obtain bs w where samp: "batch_sampler T loader (world st) = (bs, w)"
    by (cases "batch_sampler T loader (world st)")
  define st0 where "st0 = st\<lparr>training := False, world := w\<rparr>"
  have p0: "params st0 = params st" by (simp add: st0_def)
  have "params (snd (validate_batches T loader loss_fn bs (0, 0) st0)) = params st0"
    by (rule validate_batches_params)
  then show "params (snd (validate T loader loss_fn st)) = params st"
    using p0 samp
    by (auto simp: validate_def Let_def st0_def split: prod.splits sum.splits)
  have "params (snd (test_batches T loader loss_fn bs [] st0)) = params st0"
    by (rule test_batches_params)
  then show "params (snd (test T loader loss_fn st)) = params st"
    using p0 samp
    by (auto simp: test_def Let_def st0_def logger_info_def split: prod.splits sum.splits)
qed

subsection \<open>Loaders without samples\<close>

text \<open>
  The only exceptions of fetching are IndexErrors, and a pass that fetches every batch
  counts the indices of the sampler. So an epoch or a validation over a loader with a
  positive batch size and a sample never divides by zero, and \<open>test\<close> never does.
\<close>

lemma fetch_result:
  "case fetch s b of Inl e \<Rightarrow> e = IndexError | Inr items \<Rightarrow> length items = length b"
  by (induction b) (auto simp: subset_getitem_def split: sum.splits)

lemma train_step_result:
  "case train_step T L opt loss_fn b st of
     (Inl e, st') \<Rightarrow> e = IndexError
   | (Inr (loss, num_graphs, opt'), st') \<Rightarrow> num_graphs = length b"
  using fetch_result[where s = "dl_dataset L" and b = b]
  by (auto simp: train_step_def Let_def split: sum.splits prod.splits)

lemma train_batches_result:
  "case train_batches T L opt loss_fn bs (rl, nd) st of
     (Inl e, st') \<Rightarrow> e = IndexError
   | (Inr ((rl', nd'), opt'), st') \<Rightarrow> nd' = nd + sum_list (map length bs)"
proof (induction bs arbitrary: opt rl nd st)
  case Nil
  then show ?case by simp
next
  case (Cons b bs)
  obtain r s1 where step: "train_step T L opt loss_fn b st = (r, s1)"
    by (cases "train_step T L opt loss_fn b st")
  show ?case
  proof (cases r)
    case (Inl e)
    then show ?thesis
      using train_step_result[where T = T and L = L and opt = opt and loss_fn = loss_fn
          and b = b and st = st] step by simp
  next
    case (Inr v)
    obtain loss n opt1 where v: "v = (loss, n, opt1)" by (cases v)
    have n: "n = length b"
      using train_step_result[where T = T and L = L and opt = opt and loss_fn = loss_fn
          and b = b and st = st] step Inr v by simp
    show ?thesis
      using Cons.IH[where opt = opt1 and rl = "rl + loss * real n" and nd = "nd + n" and st = s1]
        step Inr v n
      by (auto split: sum.splits prod.splits)
  qed
qed

lemma sum_length_chunks: "0 < n \<Longrightarrow> sum_list (map length (chunks n xs)) = length xs"
  using concat_chunks[where n = n and xs = xs] by (metis length_concat)

lemma batch_sampler_count:
  assumes "0 < dl_batch_size L" and "batch_sampler T L w = (bs, w')"
  shows "sum_list (map length bs) = length (sub_indices (dl_dataset L))"
  using assms
  by (auto simp: batch_sampler_def Let_def sum_length_chunks split: if_splits prod.splits)

lemma train_one_epoch_no_zero_division:
  assumes "0 < dl_batch_size L" and "sub_indices (dl_dataset L) \<noteq> []"
  shows "fst (train_one_epoch T L opt loss_fn st) \<noteq> Inl ZeroDivisionError"
proof -
  obtain bs w where samp: "batch_sampler T L (world st) = (bs, w)"
    by (cases "batch_sampler T L (world st)")
  have count: "sum_list (map length bs) = length (sub_indices (dl_dataset L))"
    using assms(1) samp by (rule batch_sampler_count)
  show ?thesis
    using train_batches_result[where T = T and L = L and opt = opt and loss_fn = loss_fn and bs = bs
        and rl = 0 and nd = 0 and st = "st\<lparr>world := w\<rparr>"] count assms(2)
    by (auto simp: train_one_epoch_def samp split: sum.splits prod.splits)
qed

lemma train_epochs_no_zero_division:
  assumes "0 < dl_batch_size L" and "sub_indices (dl_dataset L) \<noteq> []"
  shows "fst (train_epochs T L opt loss_fn eps st) \<noteq> Inl ZeroDivisionError"
proof (induction eps arbitrary: opt st)
  case Nil
  then show ?case by simp
next
  case (Cons ep eps)
  show ?case
    using train_one_epoch_no_zero_division[OF assms, where T = T and opt = opt and loss_fn = loss_fn
        and st = st] Cons.IH
    by (auto split: sum.splits prod.splits)
qed

lemma train_no_zero_division:
  assumes "0 < dl_batch_size L" and "sub_indices (dl_dataset L) \<noteq> []"
  shows "fst (train num_epochs T L opt loss_fn st) \<noteq> Inl ZeroDivisionError"
  unfolding train_def using assms by (rule train_epochs_no_zero_division)

lemma validate_batches_result:
  "case validate_batches T L loss_fn bs (vl, nd) st of
     (Inl e, st') \<Rightarrow> e = IndexError
   | (Inr (vl', nd'), st') \<Rightarrow> nd' = nd + sum_list (map length bs)"
proof (induction bs arbitrary: vl nd st)
  case Nil
  then show ?case by simp
next
  case (Cons b bs)
  show ?case
  proof (cases "fetch (dl_dataset L) b")
    case (Inl e)
    then show ?thesis
      using fetch_result[where s = "dl_dataset L" and b = b] by simp
  next
    case (Inr items)
    have n: "length items = length b"
      using fetch_result[where s = "dl_dataset L" and b = b] Inr by simp
    obtain pred w where fw: "forward T (params st) (training st) items (world st) = (pred, w)"
      by (cases "forward T (params st) (training st) items (world st)")
    show ?thesis
      using Cons.IH[where vl = "vl + loss_fn pred (map data_y items) * real (length items)"
          and nd = "nd + length items" and st = "st\<lparr>world := w\<rparr>"] Inr n fw
      by (auto split: sum.splits prod.splits)
  qed
qed

lemma validate_no_zero_division:
  assumes "0 < dl_batch_size L" and "sub_indices (dl_dataset L) \<noteq> []"
  shows "fst (validate T L loss_fn st) \<noteq> Inl ZeroDivisionError"
proof -
  obtain bs w where samp: "batch_sampler T L (world st) = (bs, w)"
    by (cases "batch_sampler T L (world st)")
  have count: "sum_list (map length bs) = length (sub_indices (dl_dataset L))"
    using assms(1) samp by (rule batch_sampler_count)
  show ?thesis
    using validate_batches_result[where T = T and L = L and loss_fn = loss_fn and bs = bs and vl = 0
        and nd = 0 and st = "st\<lparr>training := False, world := w\<rparr>"]
      count assms(2) samp
    by (auto simp: validate_def Let_def split: sum.splits prod.splits)
qed

lemma test_batches_error:
  "test_batches T L loss_fn bs outp st = (Inl e, st') \<Longrightarrow> e \<noteq> ZeroDivisionError"
proof (induction bs arbitrary: outp st)
  case Nil
  then show ?case by simp
next
  case (Cons b bs)
  show ?case
    using fetch_result[where s = "dl_dataset L" and b = b] Cons.prems Cons.IH
    by (auto simp: Let_def split: sum.splits prod.splits if_splits)
qed

lemma test_no_zero_division:
  "fst (test T L loss_fn st) \<noteq> Inl ZeroDivisionError"
proof -
  obtain bs w where samp: "batch_sampler T L (world st) = (bs, w)"
    by (cases "batch_sampler T L (world st)")
  show ?thesis
    using test_batches_error[where T = T and L = L and loss_fn = loss_fn and bs = bs and outp = "[]"
        and st = "st\<lparr>training := False, world := w\<rparr>"] samp
    by (auto simp: test_def Let_def mean_squared_error_def split: sum.splits prod.splits if_splits)
qed

lemma DataLoader_init_ok:
  "DataLoader_init d bsz sh = Inr L \<Longrightarrow>
   dl_dataset L = d \<and> 0 < dl_batch_size L \<and> dl_shuffle L = sh \<and> (sh \<longrightarrow> sub_indices d \<noteq> [])"
  by (auto simp: DataLoader_init_def split: if_splits)

lemma DataLoader_init_error:
  "DataLoader_init d bsz sh = Inl e \<Longrightarrow> e = ValueError"
  by (auto simp: DataLoader_init_def split: if_splits)

lemma cv_folds_no_zero_division:
  "fst (cv_folds T dataset opt loss_fn num_epochs folds acc st) \<noteq> Inl ZeroDivisionError"
proof (induction folds arbitrary: opt acc st)
  case Nil
  then show ?case by simp
next
  case (Cons f folds)
  obtain train_idx valid_idx where f: "f = (train_idx, valid_idx)" by (cases f)
  let ?tr = "\<lparr>sub_dataset = dataset, sub_indices = train_idx\<rparr>"
  let ?va = "\<lparr>sub_dataset = dataset, sub_indices = valid_idx\<rparr>"
  show ?case
  proof (cases "DataLoader_init ?tr 32 True")
    case (Inl e)
    then show ?thesis using DataLoader_init_error[OF Inl] by (simp add: f)
  next
    case tr: (Inr train_loader)
    show ?thesis
    proof (cases "DataLoader_init ?va 32 True")
      case (Inl e)
      then show ?thesis using DataLoader_init_error[OF Inl] tr by (simp add: f)
    next
      case va: (Inr valid_loader)
      have t: "fst (train num_epochs T train_loader opt loss_fn s) \<noteq> Inl ZeroDivisionError" for s
        using DataLoader_init_ok[OF tr] by (intro train_no_zero_division) auto
      have v: "fst (validate T valid_loader loss_fn s) \<noteq> Inl ZeroDivisionError" for s
        using DataLoader_init_ok[OF va] by (intro validate_no_zero_division) auto
      obtain p w where reset: "reset_parameters T (world st) = (p, w)"
        by (cases "reset_parameters T (world st)")
      have t': "train num_epochs T train_loader opt loss_fn s \<noteq> (Inl ZeroDivisionError, s')"
        for s s' using t[where s = s] by (metis fst_conv)
      have v': "validate T valid_loader loss_fn s \<noteq> (Inl ZeroDivisionError, s')"
        for s s' using v[where s = s] by (metis fst_conv)
      have rest: "cv_folds T dataset opt' loss_fn num_epochs folds acc' s
                    \<noteq> (Inl ZeroDivisionError, s')" for opt' acc' s s'
        using Cons.IH[where opt = opt' and acc = acc' and st = s] by (metis fst_conv)
      show ?thesis
        using t' v' rest Cons.IH
        by (auto simp: f tr va reset split: sum.splits prod.splits)
    qed
  qed
qed

lemma kfold_split_error: "kfold_split perm k n = Inl e \<Longrightarrow> e = ValueError"
  by (auto simp: kfold_split_def split: if_splits)

lemma cv_objective_no_zero_division:
  "fst (cv_objective T dataset trial k_inner pool loss_fn num_epochs st) \<noteq> Inl ZeroDivisionError"
proof -
  let ?n = "length (sub_indices pool)"
  show ?thesis
  proof (cases "kfold_split (kfold_shuffle T 0 ?n) k_inner ?n")
    case (Inl e)
    then show ?thesis using kfold_split_error[OF Inl] by (simp add: cv_objective_def Let_def)
  next
    case (Inr folds)
    have "cv_folds T dataset opt loss_fn num_epochs folds [] s \<noteq> (Inl ZeroDivisionError, s')"
      for opt s s'
      using cv_folds_no_zero_division[where T = T and dataset = dataset and opt = opt
          and loss_fn = loss_fn and num_epochs = num_epochs and folds = folds and acc = "[]"
          and st = s]
      by (metis fst_conv)
    then show ?thesis
      using Inr by (auto simp: cv_objective_def Let_def split: sum.splits prod.splits)
  qed
qed

lemma optimize_no_zero_division:
  assumes "\<And>trial s. fst (objective trial s) \<noteq> Inl ZeroDivisionError"
  shows "fst (optimize T objective n timeout trials st) \<noteq> Inl ZeroDivisionError"
proof (induction n arbitrary: trials st)
  case 0
  then show ?case by simp
next
  case (Suc n)
  obtain trial w where pr: "propose T trials (world st) = (trial, w)"
    by (cases "propose T trials (world st)")
  have obj: "objective trial (st\<lparr>world := w\<rparr>) \<noteq> (Inl ZeroDivisionError, s')" for s'
    using assms[where trial = trial and s = "st\<lparr>world := w\<rparr>"] by (metis fst_conv)
  have rest: "optimize T objective n timeout trials' s \<noteq> (Inl ZeroDivisionError, s')"
    for trials' s s'
    using Suc.IH[where trials = trials' and st = s] by (metis fst_conv)
  show ?case
    using obj rest Suc.IH by (auto simp: pr split: sum.splits prod.splits)
qed

text \<open>
  A training fold of a split is never empty: a validation fold is shorter than the index
  range, whatever the shuffle.
\<close>

lemma slices_length_bound:
  "s \<in> set (slices ss xs) \<Longrightarrow> \<exists>z \<in> set ss. length s \<le> z"
  by (induction ss arbitrary: xs) auto

lemma fold_sizes_less:
  assumes "2 \<le> k" and "k \<le> n" and "z \<in> set (fold_sizes n k)"
  shows "z < n"
proof -
  define q where "q = n div k"
  have n: "k * q + n mod k = n" by (simp add: q_def)
  have q: "1 \<le> q" using assms(1,2) by (simp add: q_def div_greater_zero_iff Suc_le_eq)
  have "2 * q \<le> k * q" using assms(1) by (rule mult_le_mono1)
  then have two: "2 * q + n mod k \<le> n" using n by linarith
  obtain i where z: "z = q + (if i < n mod k then 1 else 0)"
    using assms(3) by (auto simp: fold_sizes_def q_def)
  show ?thesis
  proof (cases "i < n mod k")
    case True
    then show ?thesis using z two q by simp
  next
    case False
    then show ?thesis using z two q by simp
  qed
qed

lemma kfold_split_train_nonempty:
  assumes "kfold_split perm k n = Inr folds" and "f \<in> set folds"
  shows "fst f \<noteq> []"
proof
  assume empty: "fst f = []"
  have k: "2 \<le> k" "k \<le> n"
    using assms(1) by (auto simp: kfold_split_def split: if_splits)
  obtain s where s: "s \<in> set (slices (fold_sizes n k) (map perm [0..<n]))"
    and f: "fst f = filter (\<lambda>i. i \<notin> set s) [0..<n]"
    using assms k by (auto simp: kfold_split_def)
  obtain z where "z \<in> set (fold_sizes n k)" "length s \<le> z"
    using slices_length_bound[OF s] by blast
  then have short: "length s < n"
    using fold_sizes_less[OF k] by fastforce
  have "{0..<n} \<subseteq> set s"
    using empty f by (auto simp: filter_empty_conv)
  then have "card {0..<n} \<le> card (set s)"
    by (intro card_mono) auto
  then have "n \<le> length s"
    using card_length[of s] by simp
  with short show False by simp
qed

lemma best_trial_error: "best_trial trials = Inl e \<Longrightarrow> e = ValueError"
  by (cases trials) auto

lemma outer_folds_no_zero_division:
  assumes obj: "\<And>trial k pool lf ne s.
                  fst (objective trial k pool lf ne s) \<noteq> Inl ZeroDivisionError"
    and "\<forall>f \<in> set fs. fst (snd f) \<noteq> []"
  shows "fst (outer_folds T dataset loss_fn num_epochs k_inner k_outer objective timeout_optuna
                fs eval_loss st) \<noteq> Inl ZeroDivisionError"
  using assms(2)
proof (induction fs arbitrary: eval_loss st)
  case Nil
  then show ?case by simp
next
  case (Cons f fs)
  obtain fold_idx train_ids test_ids where f: "f = (fold_idx, train_ids, test_ids)"
    by (cases f)
  have ne: "train_ids \<noteq> []" using Cons.prems f by simp
  let ?train_data = "\<lparr>sub_dataset = dataset, sub_indices = train_ids\<rparr>"
  let ?train_loader = "\<lparr>dl_dataset = ?train_data, dl_batch_size = 32, dl_shuffle = False\<rparr>"
  have search: "optimize T (\<lambda>trial. objective trial k_inner ?train_data loss_fn num_epochs)
                  2 timeout_optuna [] s \<noteq> (Inl ZeroDivisionError, s')" for s s'
    using optimize_no_zero_division[where objective =
        "\<lambda>trial. objective trial k_inner ?train_data loss_fn num_epochs" and T = T and n = 2
        and timeout = timeout_optuna and trials = "[]" and st = s] obj
    by (metis fst_conv)
  have best: "best_trial trials \<noteq> Inl ZeroDivisionError" for trials
    using best_trial_error[of trials ZeroDivisionError] by auto
  have retrain: "train num_epochs T ?train_loader opt loss_fn s \<noteq> (Inl ZeroDivisionError, s')"
    for opt s s'
    using train_no_zero_division[where L = ?train_loader and num_epochs = num_epochs and T = T
        and opt = opt and loss_fn = loss_fn and st = s] ne
    by (metis DataLoader.select_convs(1) DataLoader.select_convs(2) Subset.select_convs(2)
          fst_conv zero_less_numeral)
  have tst: "test T L loss_fn s \<noteq> (Inl ZeroDivisionError, s')" for L s s'
    using test_no_zero_division[where T = T and L = L and loss_fn = loss_fn and st = s]
    by (metis fst_conv)
  have rest: "\<forall>f \<in> set fs. fst (snd f) \<noteq> []" using Cons.prems by simp
  have ih: "outer_folds T dataset loss_fn num_epochs k_inner k_outer objective timeout_optuna
              fs ev s \<noteq> (Inl ZeroDivisionError, s')" for ev s s'
    using Cons.IH[OF rest, where eval_loss = ev and st = s] by (metis fst_conv)
  show ?case
    unfolding f outer_folds.simps Let_def
    using search best retrain tst ih Cons.IH[OF rest]
    by (auto simp: DataLoader_init_def split: prod.splits sum.splits)
qed

lemma nested_cv_no_zero_division:
  assumes "cfg_objective config = cv_objective T dataset"
  shows "fst (nested_cv_experiment T config st) \<noteq> Inl ZeroDivisionError"
proof -
  let ?n = "length (cfg_dataset config)"
  show ?thesis
  proof (cases "kfold_split (kfold_shuffle T 22 ?n) (cfg_k_outer config) ?n")
    case (Inl e)
    then show ?thesis
      using kfold_split_error[OF Inl] by (simp add: nested_cv_experiment_def)
  next
    case (Inr folds)
    have "\<forall>f \<in> set (enumerate 0 folds). fst (snd f) \<noteq> []"
    proof
      fix f assume "f \<in> set (enumerate 0 folds)"
      then have "snd f \<in> set (map snd (enumerate 0 folds))" by (metis imageI set_map)
      then have "snd f \<in> set folds" by (simp add: map_snd_enumerate)
      with Inr show "fst (snd f) \<noteq> []" by (rule kfold_split_train_nonempty)
    qed
    then have "fst (outer_folds T (cfg_dataset config) (cfg_loss_fn config)
                 (cfg_num_epochs config) (cfg_k_inner config) (cfg_k_outer config)
                 (cv_objective T dataset) (cfg_timeout_optuna config) (enumerate 0 folds) [] st)
               \<noteq> Inl ZeroDivisionError"
      by (intro outer_folds_no_zero_division cv_objective_no_zero_division)
    then show ?thesis
      using Inr assms
      by (auto simp: nested_cv_experiment_def split: prod.splits sum.splits)
  qed
qed

lemma kfold_split_no_samples: "kfold_split perm k 0 = Inl ValueError"
  by (auto simp: kfold_split_def)

text \<open>
  Claim C7, as amended. Nothing guards the division by the number of samples: on a loader
  over no sample that can be built (a loader that does not shuffle), \<open>train_one_epoch\<close> and
  \<open>validate\<close> run their empty loop, reach the division and end with ZeroDivisionError. A
  shuffling loader over no sample is refused where it is built, with a ValueError. In
  \<open>nested_cv_experiment\<close> with \<open>cv_objective\<close> as its objective the case does not arise, and
  no run ends with ZeroDivisionError: the splitter refuses fewer samples than folds with
  a ValueError and gives folds with a sample otherwise. An empty dataset ends the run with
  that ValueError before anything is trained or logged, an empty pool ends the objective
  with it right after its log record.
\<close>

theorem zero_samples_reach_division:
  "(DataLoader_init \<lparr>sub_dataset = ds, sub_indices = []\<rparr> bsz sh = Inr loader \<longrightarrow>
      fst (train_one_epoch T loader opt loss_fn st) = Inl ZeroDivisionError \<and>
      fst (validate T loader loss_fn st) = Inl ZeroDivisionError) \<and>
   DataLoader_init \<lparr>sub_dataset = ds, sub_indices = []\<rparr> bsz True = Inl ValueError \<and>
   (cfg_objective config = cv_objective T dataset \<longrightarrow>
      fst (nested_cv_experiment T config st) \<noteq> Inl ZeroDivisionError) \<and>
   (cfg_dataset config = [] \<longrightarrow> nested_cv_experiment T config st = (Inl ValueError, st)) \<and>
   (sub_indices pool = [] \<longrightarrow>
      cv_objective T dataset trial k_inner pool loss_fn num_epochs st
        = (Inl ValueError, logger_info PerformingInnerCV st))"
proof (intro conjI impI)
  assume built: "DataLoader_init \<lparr>sub_dataset = ds, sub_indices = []\<rparr> bsz sh = Inr loader"
  then have loader: "loader = \<lparr>dl_dataset = \<lparr>sub_dataset = ds, sub_indices = []\<rparr>,
                                dl_batch_size = bsz, dl_shuffle = False\<rparr>"
    by (auto simp: DataLoader_init_def split: if_splits)
  show "fst (train_one_epoch T loader opt loss_fn st) = Inl ZeroDivisionError"
    by (simp add: loader train_one_epoch_def batch_sampler_def)
  show "fst (validate T loader loss_fn st) = Inl ZeroDivisionError"
    by (simp add: loader validate_def batch_sampler_def)
next
  show "DataLoader_init \<lparr>sub_dataset = ds, sub_indices = []\<rparr> bsz True = Inl ValueError"
    by (simp add: DataLoader_init_def)
next
  assume "cfg_objective config = cv_objective T dataset"
  then show "fst (nested_cv_experiment T config st) \<noteq> Inl ZeroDivisionError"
    by (rule nested_cv_no_zero_division)
next
  assume "cfg_dataset config = []"
  then show "nested_cv_experiment T config st = (Inl ValueError, st)"
    by (simp add: nested_cv_experiment_def kfold_split_no_samples)
next
  assume "sub_indices pool = []"
  then show "cv_objective T dataset trial k_inner pool loss_fn num_epochs st
        = (Inl ValueError, logger_info PerformingInnerCV st)"
    by (simp add: cv_objective_def kfold_split_no_samples)
qed

text \<open>The two functions on the loader over no graph that does not shuffle.\<close>

theorem zero_samples_counterexample:
  "DataLoader_init \<lparr>sub_dataset = demo_dataset, sub_indices = []\<rparr> 32 False
     = Inr \<lparr>dl_dataset = \<lparr>sub_dataset = demo_dataset, sub_indices = []\<rparr>, dl_batch_size = 32,
             dl_shuffle = False\<rparr> \<and>
   fst (validate demo_torch
          \<lparr>dl_dataset = \<lparr>sub_dataset = demo_dataset, sub_indices = []\<rparr>, dl_batch_size = 32,
             dl_shuffle = False\<rparr> MSELoss demo_state) = Inl ZeroDivisionError \<and>
   fst (train_one_epoch demo_torch
          \<lparr>dl_dataset = \<lparr>sub_dataset = demo_dataset, sub_indices = []\<rparr>, dl_batch_size = 32,
             dl_shuffle = False\<rparr> demo_optimizer MSELoss demo_state) = Inl ZeroDivisionError"
  by (simp add: DataLoader_init_def validate_def train_one_epoch_def batch_sampler_def)

text \<open>The theorem on the small instance, and on its configuration without graphs.\<close>

theorem zero_samples_reach_division_witness:
  "fst (train_one_epoch demo_torch
          \<lparr>dl_dataset = \<lparr>sub_dataset = demo_dataset, sub_indices = []\<rparr>, dl_batch_size = 32,
             dl_shuffle = False\<rparr> demo_optimizer MSELoss demo_state) = Inl ZeroDivisionError \<and>
   fst (validate demo_torch
          \<lparr>dl_dataset = \<lparr>sub_dataset = demo_dataset, sub_indices = []\<rparr>, dl_batch_size = 32,
             dl_shuffle = False\<rparr> MSELoss demo_state) = Inl ZeroDivisionError \<and>
   DataLoader_init \<lparr>sub_dataset = demo_dataset, sub_indices = []\<rparr> 32 True = Inl ValueError \<and>
   fst (nested_cv_experiment demo_torch demo_config demo_state) \<noteq> Inl ZeroDivisionError \<and>
   nested_cv_experiment demo_torch (demo_config\<lparr>cfg_dataset := []\<rparr>) demo_state
     = (Inl ValueError, demo_state) \<and>
   cv_objective demo_torch demo_dataset (\<lambda>name. 1 / 1000) 2
     \<lparr>sub_dataset = demo_dataset, sub_indices = []\<rparr> MSELoss 1 demo_state
     = (Inl ValueError, logger_info PerformingInnerCV demo_state)"
proof -
  let ?L = "\<lparr>dl_dataset = \<lparr>sub_dataset = demo_dataset, sub_indices = []\<rparr>, dl_batch_size = 32,
             dl_shuffle = False\<rparr>"
  have built: "DataLoader_init \<lparr>sub_dataset = demo_dataset, sub_indices = []\<rparr> 32 False = Inr ?L"
    by (simp add: DataLoader_init_def)
  have obj: "cfg_objective demo_config = cv_objective demo_torch demo_dataset"
    by (simp add: demo_config_def)
  have empty: "cfg_dataset (demo_config\<lparr>cfg_dataset := []\<rparr>) = []"
    by simp
  have pool: "sub_indices \<lparr>sub_dataset = demo_dataset, sub_indices = []\<rparr> = []"
    by simp
  show ?thesis
    using zero_samples_reach_division[where ds = demo_dataset and bsz = 32 and sh = False
        and loader = ?L and T = demo_torch and opt = demo_optimizer and loss_fn = MSELoss
        and st = demo_state and config = demo_config and dataset = demo_dataset
        and pool = "\<lparr>sub_dataset = demo_dataset, sub_indices = []\<rparr>"
        and trial = "\<lambda>name. 1 / 1000" and k_inner = 2 and num_epochs = 1]
      zero_samples_reach_division[where config = "demo_config\<lparr>cfg_dataset := []\<rparr>"
        and T = demo_torch and st = demo_state]
      built obj empty pool
    by simp
qed

subsection \<open>The configured batch size\<close>

text \<open>
  Claim C10. Two configurations that differ in \<open>batch_size\<close> only give the same run of
  \<open>nested_cv_experiment\<close>, result and final state: the value is unpacked and never used,
  every loader being built with the batch size 32.
\<close>

theorem batch_size_ignored:
  "nested_cv_experiment T (config\<lparr>cfg_batch_size := b\<rparr>) st = nested_cv_experiment T config st"
  by (simp add: nested_cv_experiment_def)

subsection \<open>The metrics of the outer folds\<close>

lemma outer_folds_length:
  "outer_folds T dataset loss_fn num_epochs k_inner k_outer objective timeout_optuna fs eval_loss st
     = (Inr eval_loss', st') \<Longrightarrow> length eval_loss' = length eval_loss + length fs"
proof (induction fs arbitrary: eval_loss st)
  case Nil
  then show ?case by simp
next
  case (Cons f fs)
  obtain fold_idx train_ids test_ids where f: "f = (fold_idx, train_ids, test_ids)"
    by (cases f)
  from Cons.prems show ?case
    unfolding f outer_folds.simps Let_def
    by (auto split: prod.splits sum.splits dest!: Cons.IH)
qed

lemma kfold_split_length:
  "kfold_split perm k n = Inr folds \<Longrightarrow> length folds = k"
  by (auto simp: kfold_split_def fold_sizes_def length_slices split: if_splits)

text \<open>
  Claim C3, as amended. A call of \<open>nested_cv_experiment\<close> that ends without an exception
  has collected exactly \<open>k_outer\<close> test metrics, one per outer fold, and its last log
  record holds their arithmetic mean; the call itself evaluates to \<open>None\<close>.
\<close>

theorem nested_cv_experiment_fold_metrics:
  assumes "nested_cv_experiment T config st = (Inr r, st')"
  shows "r = PyNone \<and>
         (\<exists>folds eval_loss st''.
            kfold_split (kfold_shuffle T 22 (length (cfg_dataset config))) (cfg_k_outer config)
              (length (cfg_dataset config)) = Inr folds \<and>
            outer_folds T (cfg_dataset config) (cfg_loss_fn config) (cfg_num_epochs config)
              (cfg_k_inner config) (cfg_k_outer config) (cfg_objective config)
              (cfg_timeout_optuna config) (enumerate 0 folds) [] st = (Inr eval_loss, st'') \<and>
            length eval_loss = cfg_k_outer config \<and>
            st' = logger_info
                    (MeanMSEAcrossOuterCV (sum_list eval_loss / real (cfg_k_outer config))) st'')"
proof -
  let ?n = "length (cfg_dataset config)"
  obtain folds where split: "kfold_split (kfold_shuffle T 22 ?n) (cfg_k_outer config) ?n = Inr folds"
    using assms by (auto simp: nested_cv_experiment_def Let_def split: sum.splits)
  let ?run = "outer_folds T (cfg_dataset config) (cfg_loss_fn config) (cfg_num_epochs config)
              (cfg_k_inner config) (cfg_k_outer config) (cfg_objective config)
              (cfg_timeout_optuna config) (enumerate 0 folds) [] st"
  obtain eval_loss st'' where run: "?run = (Inr eval_loss, st'')"
    and r: "r = PyNone" and st': "st' = logger_info (MeanMSEAcrossOuterCV (np_mean eval_loss)) st''"
    using assms split by (auto simp: nested_cv_experiment_def Let_def split: sum.splits prod.splits)
  have "length eval_loss = length folds"
    using outer_folds_length[OF run] by simp
  then have len: "length eval_loss = cfg_k_outer config"
    using kfold_split_length[OF split] by simp
  show ?thesis
    using split run r st' len by (auto simp: np_mean_def)
qed

text \<open>
  On the small instance the two fold metrics are 2 and 9/2; their mean 13/4 is logged,
  and the call evaluates to \<open>None\<close>.
\<close>

theorem nested_cv_returns_mean_counterexample:
  "fst (nested_cv_experiment demo_torch demo_config demo_state) = Inr PyNone \<and>
   last (logged (snd (nested_cv_experiment demo_torch demo_config demo_state)))
     = MeanMSEAcrossOuterCV (13 / 4) \<and>
   fst (nested_cv_experiment demo_torch demo_config demo_state) \<noteq> Inr (PyFloat (13 / 4))"
  by (simp add: demo_run)

theorem nested_cv_experiment_fold_metrics_witness:
  "fst (nested_cv_experiment demo_torch demo_config demo_state) = Inr PyNone \<and>
   (\<exists>folds eval_loss st''.
      kfold_split (kfold_shuffle demo_torch 22 (length (cfg_dataset demo_config)))
        (cfg_k_outer demo_config) (length (cfg_dataset demo_config)) = Inr folds \<and>
      outer_folds demo_torch (cfg_dataset demo_config) (cfg_loss_fn demo_config)
        (cfg_num_epochs demo_config) (cfg_k_inner demo_config) (cfg_k_outer demo_config)
        (cfg_objective demo_config) (cfg_timeout_optuna demo_config) (enumerate 0 folds) []
        demo_state = (Inr eval_loss, st'') \<and>
      length eval_loss = 2 \<and>
      snd (nested_cv_experiment demo_torch demo_config demo_state)
        = logger_info (MeanMSEAcrossOuterCV (sum_list eval_loss / 2)) st'')"
proof -
  have run: "nested_cv_experiment demo_torch demo_config demo_state =
        (Inr PyNone, snd (nested_cv_experiment demo_torch demo_config demo_state))"
    by (simp add: demo_run)
  have k: "cfg_k_outer demo_config = 2" by (simp add: demo_config_def)
  have "fst (nested_cv_experiment demo_torch demo_config demo_state) = Inr PyNone"
    by (simp add: demo_run)
  then show ?thesis
    using nested_cv_experiment_fold_metrics[OF run] k by simp
qed

subsection \<open>The number of trials\<close>

text \<open>
  Claim C4 (the search invokes the objective at most \<open>n_trials\<close> times per outer fold,
  \<open>n_trials\<close> as configured) does not hold of the code. The configuration of the small
  instance asks for one trial; \<open>study.optimize\<close> is called with the literal 2, and the
  objective logs its record twice in each of the two outer folds.
\<close>

theorem search_runs_two_trials:
  "cfg_n_trials demo_config = 1 \<and> cfg_k_outer demo_config = 2 \<and>
   length (filter (\<lambda>e. e = PerformingInnerCV)
             (logged (snd (nested_cv_experiment demo_torch demo_config demo_state)))) = 4"
  by (simp add: demo_run) (simp add: demo_config_def)

subsection \<open>Processing the raw files\<close>

lemma process_rows_frame:
  "process_rows F ds df rows (i0, d0) = (Inr (), (i1, d1)) \<Longrightarrow>
   i1 = i0 + length rows \<and> (\<forall>k. k < i0 \<longrightarrow> d1 k = d0 k)"
proof (induction rows arbitrary: i0 d0)
  case Nil
  then show ?case by simp
next
  case (Cons row rows)
  obtain i smile where row: "row = (i, smile)" by (cases row)
  from Cons.prems obtain s v where
    rest: "process_rows F ds df rows (i0 + 1, d0(i0 \<mapsto> \<lparr>data_x = F s, data_y = v\<rparr>)) = (Inr (), (i1, d1))"
    unfolding row by (auto split: cell.splits if_splits)
  from Cons.IH[OF rest] show ?case by auto
qed

lemma process_rows_shift:
  "process_rows F ds df rows (i0, d0) = (Inr (), (i1, d1)) \<Longrightarrow>
   process_rows F ds df rows (j0, e0) =
     (Inr (), (j0 + length rows,
               (\<lambda>k. if j0 \<le> k \<and> k < j0 + length rows then d1 (k - j0 + i0) else e0 k)))"
proof (induction rows arbitrary: i0 d0 j0 e0)
  case Nil
  then show ?case by (auto simp: fun_eq_iff)
next
  case (Cons row rows)
  obtain i smile where row: "row = (i, smile)" by (cases row)
  from Cons.prems obtain s v where
    smile: "smile = Str s" and col: "target_label ds \<in> set (df_columns df)"
    and tgt: "(df_rows df ! i) (target_label ds) = Num v"
    and rest: "process_rows F ds df rows (i0 + 1, d0(i0 \<mapsto> \<lparr>data_x = F s, data_y = v\<rparr>)) = (Inr (), (i1, d1))"
    unfolding row by (auto split: cell.splits if_splits)
  let ?g = "\<lparr>data_x = F s, data_y = v\<rparr>"
  have at_i0: "d1 i0 = Some ?g"
    using process_rows_frame[OF rest] by simp
  have "process_rows F ds df (row # rows) (j0, e0) =
        process_rows F ds df rows (j0 + 1, e0(j0 \<mapsto> ?g))"
    unfolding row using smile col tgt by simp
  also have "\<dots> = (Inr (), (j0 + 1 + length rows,
               (\<lambda>k. if j0 + 1 \<le> k \<and> k < j0 + 1 + length rows then d1 (k - (j0 + 1) + (i0 + 1))
                    else (e0(j0 \<mapsto> ?g)) k)))"
    by (rule Cons.IH[OF rest])
  also have "\<dots> = (Inr (), (j0 + length (row # rows),
               (\<lambda>k. if j0 \<le> k \<and> k < j0 + length (row # rows) then d1 (k - j0 + i0) else e0 k)))"
  proof -
    have idx: "k - (j0 + 1) + (i0 + 1) = k - j0 + i0" if "j0 + 1 \<le> k" for k
      using that by arith
    have "(if j0 + 1 \<le> k \<and> k < j0 + 1 + length rows then d1 (k - (j0 + 1) + (i0 + 1))
           else (e0(j0 \<mapsto> ?g)) k) =
          (if j0 \<le> k \<and> k < j0 + length (row # rows) then d1 (k - j0 + i0) else e0 k)" for k
    proof (cases "j0 + 1 \<le> k")
      case True
      then show ?thesis using idx[OF True] by auto
    next
      case False
      then show ?thesis using at_i0 by (cases "k = j0") auto
    qed
    then show ?thesis by (simp add: fun_eq_iff)
  qed
  finally show ?case .
qed

lemma process_rows_raw_paths:
  "process_rows F (ds\<lparr>raw_paths := ps\<rparr>) df rows st = process_rows F ds df rows st"
proof (induction rows arbitrary: st)
  case Nil
  then show ?case by simp
next
  case (Cons row rows)
  obtain i smile where row: "row = (i, smile)" by (cases row)
  obtain idx dir where st: "st = (idx, dir)" by (cases st)
  show ?case unfolding row st using Cons.IH by (simp split: cell.splits)
qed

lemma process_paths_copies:
  assumes "raw_paths ds = first # others"
    and "read_csv fs first = Inr raw" and "reset_index raw = Inr df"
    and "smiles_label ds \<in> set (df_columns df)"
    and "process_rows F ds df (enumerate 0 (map (\<lambda>r. r (smiles_label ds)) (df_rows df)))
           (0, Map.empty) = (Inr (), (m, gs))"
  shows "process_paths F fs ds rest (idx, dir) =
           (Inr (), (idx + length rest * m,
                     (\<lambda>k. if idx \<le> k \<and> k < idx + length rest * m then gs ((k - idx) mod m)
                          else dir k)))"
proof (induction rest arbitrary: idx dir)
  case Nil
  then show ?case by (auto simp: fun_eq_iff)
next
  case (Cons p rest)
  let ?rows = "enumerate 0 (map (\<lambda>r. r (smiles_label ds)) (df_rows df))"
  have m: "m = length ?rows"
    using process_rows_frame[OF assms(5)] by simp
  let ?dir' = "\<lambda>k. if idx \<le> k \<and> k < idx + m then gs (k - idx) else dir k"
  have one: "process_rows F ds df ?rows (idx, dir) = (Inr (), (idx + m, ?dir'))"
    using process_rows_shift[OF assms(5), of idx dir] m by (simp cong: if_cong)
  have "process_paths F fs ds (p # rest) (idx, dir) = process_paths F fs ds rest (idx + m, ?dir')"
    using assms(1,2,3,4) one by simp
  also have "\<dots> = (Inr (), (idx + m + length rest * m,
                     (\<lambda>k. if idx + m \<le> k \<and> k < idx + m + length rest * m
                          then gs ((k - (idx + m)) mod m) else ?dir' k)))"
    by (rule Cons.IH)
  also have "\<dots> = (Inr (), (idx + length (p # rest) * m,
                     (\<lambda>k. if idx \<le> k \<and> k < idx + length (p # rest) * m then gs ((k - idx) mod m)
                          else dir k)))"
  proof -
    have "(if idx + m \<le> k \<and> k < idx + m + length rest * m
             then gs ((k - (idx + m)) mod m) else ?dir' k) =
          (if idx \<le> k \<and> k < idx + length (p # rest) * m then gs ((k - idx) mod m) else dir k)" for k
    proof (cases "idx + m \<le> k")
      case True
      then have "(k - idx) mod m = (k - (idx + m)) mod m"
        by (metis add_diff_cancel_left' diff_diff_left le_add1 le_add_diff_inverse le_mod_geq
              diff_le_mono add.commute)
      with True show ?thesis by auto
    next
      case False
      then show ?thesis by auto
    qed
    then show ?thesis by (simp add: fun_eq_iff)
  qed
  finally show ?case .
qed

lemma process_paths_first_only:
  assumes "raw_paths ds = first # others" and "fs' first = fs first"
  shows "process_paths F fs' ds rest st = process_paths F fs ds rest st"
  using assms by (induction rest arbitrary: st) (auto simp: read_csv_def split: option.splits prod.splits sum.splits)

text \<open>
  Claim C9. \<open>process\<close> reads the first raw file once per raw path: where processing the
  first file alone saves the \<open>m\<close> graphs \<open>gs\<close>, processing all paths saves them once per
  path, graph \<open>k mod m\<close> under index \<open>k\<close>; and the tables at the other paths have no
  effect on the outcome, so their rows are never converted.
\<close>

theorem process_copies_first_file:
  assumes "raw_paths ds = first # others"
    and "process from_smiles fs (ds\<lparr>raw_paths := [first]\<rparr>) Map.empty = (Inr (), (m, gs))"
  shows "process from_smiles fs ds dir =
           (Inr (), (length (raw_paths ds) * m,
                     (\<lambda>k. if k < length (raw_paths ds) * m then gs (k mod m) else dir k))) \<and>
         (\<forall>fs'. fs' first = fs first \<longrightarrow>
            process from_smiles fs' ds dir = process from_smiles fs ds dir)"
proof
  obtain raw where raw: "read_csv fs first = Inr raw"
    using assms(2) by (auto simp: process_def split: sum.splits)
  obtain df where df: "reset_index raw = Inr df"
    using assms(2) raw by (auto simp: process_def split: sum.splits)
  have col: "smiles_label ds \<in> set (df_columns df)"
    using assms(2) raw df by (auto simp: process_def split: if_splits)
  have rows: "process_rows from_smiles ds df
                (enumerate 0 (map (\<lambda>r. r (smiles_label ds)) (df_rows df))) (0, Map.empty)
              = (Inr (), (m, gs))"
    using assms(2) raw df col
    by (auto simp: process_def process_rows_raw_paths split: prod.splits sum.splits)
  show "process from_smiles fs ds dir =
           (Inr (), (length (raw_paths ds) * m,
                     (\<lambda>k. if k < length (raw_paths ds) * m then gs (k mod m) else dir k)))"
  proof -
    have "process_paths from_smiles fs ds (raw_paths ds) (0, dir) =
           (Inr (), (0 + length (raw_paths ds) * m,
                     (\<lambda>k. if 0 \<le> k \<and> k < 0 + length (raw_paths ds) * m then gs ((k - 0) mod m)
                          else dir k)))"
      using assms(1) raw df col rows by (rule process_paths_copies)
    then show ?thesis by (simp add: process_def cong: if_cong)
  qed
  show "\<forall>fs'. fs' first = fs first \<longrightarrow>
            process from_smiles fs' ds dir = process from_smiles fs ds dir"
  proof (intro allI impI)
    fix fs' :: "string \<rightharpoonup> dataframe"
    assume "fs' first = fs first"
    with assms(1) show "process from_smiles fs' ds dir = process from_smiles fs ds dir"
      unfolding process_def by (rule process_paths_first_only)
  qed
qed

text \<open>
  Two raw files, \<open>from_smiles\<close> taken as the length of the string: the two rows of
  \<open>a.csv\<close> are saved twice, the row of \<open>b.csv\<close> never, and \<open>len\<close> counts three graphs.
\<close>

lemma demo_first_file:
  "process length demo_files (demo_molecules\<lparr>raw_paths := [''a.csv'']\<rparr>) Map.empty
     = (Inr (), (2, [0 \<mapsto> \<lparr>data_x = 2, data_y = 1\<rparr>, 1 \<mapsto> \<lparr>data_x = 3, data_y = 2\<rparr>]))"
  by (simp add: process_def read_csv_def reset_index_def demo_files_def demo_molecules_def
      demo_row_def Let_def numeral_2_eq_2 numeral_3_eq_3)

theorem process_copies_first_file_witness:
  "process length demo_files demo_molecules Map.empty =
     (Inr (), (4, [0 \<mapsto> \<lparr>data_x = 2, data_y = 1\<rparr>, 1 \<mapsto> \<lparr>data_x = 3, data_y = 2\<rparr>,
                   2 \<mapsto> \<lparr>data_x = 2, data_y = 1\<rparr>, 3 \<mapsto> \<lparr>data_x = 3, data_y = 2\<rparr>])) \<and>
   len demo_files demo_molecules = Inr 3"
proof -
  have paths: "raw_paths demo_molecules = ''a.csv'' # [''b.csv'']"
    by (simp add: demo_molecules_def)
  have "process length demo_files demo_molecules Map.empty =
          (Inr (), (length (raw_paths demo_molecules) * 2,
             (\<lambda>k. if k < length (raw_paths demo_molecules) * 2
                   then [0 \<mapsto> \<lparr>data_x = 2, data_y = 1\<rparr>, 1 \<mapsto> \<lparr>data_x = 3::nat, data_y = 2\<rparr>] (k mod 2)
                   else Map.empty k)))"
    using process_copies_first_file[OF paths demo_first_file, of Map.empty] by simp
  moreover have "(\<lambda>k::nat. if k < 4
                   then [0 \<mapsto> \<lparr>data_x = 2, data_y = 1\<rparr>, 1 \<mapsto> \<lparr>data_x = 3::nat, data_y = 2\<rparr>] (k mod 2)
                   else None)
       = [0 \<mapsto> \<lparr>data_x = 2, data_y = 1\<rparr>, 1 \<mapsto> \<lparr>data_x = 3, data_y = 2\<rparr>,
                   2 \<mapsto> \<lparr>data_x = 2, data_y = 1\<rparr>, 3 \<mapsto> \<lparr>data_x = 3, data_y = 2\<rparr>]"
  proof
    fix k :: nat
    consider "k = 0" | "k = 1" | "k = 2" | "k = 3" | "4 \<le> k" by linarith
    then show "(if k < 4
                   then [0 \<mapsto> \<lparr>data_x = 2, data_y = 1\<rparr>, 1 \<mapsto> \<lparr>data_x = 3::nat, data_y = 2\<rparr>] (k mod 2)
                   else None)
       = [0 \<mapsto> \<lparr>data_x = 2, data_y = 1\<rparr>, 1 \<mapsto> \<lparr>data_x = 3, data_y = 2\<rparr>,
                   2 \<mapsto> \<lparr>data_x = 2, data_y = 1\<rparr>, 3 \<mapsto> \<lparr>data_x = 3, data_y = 2\<rparr>] k"
      by cases auto
  qed
  moreover have "len demo_files demo_molecules = Inr 3"
    by (simp add: len_def read_csv_def demo_files_def demo_molecules_def)
  ultimately show ?thesis by (simp add: demo_molecules_def)
qed

end
